theory Spec2Isabelle
  imports Main
begin

section \<open>Python values used by the scraper\<close>

text \<open>
  The scraper (\<^verbatim>\<open>src/scraper.py\<close>, class \<^verbatim>\<open>BlogScraper\<close>) is embedded function by
  function, under the names of the source without the leading underscore.

  \<^item> Python \<^verbatim>\<open>str\<close> is \<^typ>\<open>string\<close>: a character is a code point below 256
    (Latin-1), and the length of a text counts characters.
  \<^item> Exceptions are values: a function that can raise returns \<open>exn + 'a\<close>, with
    \<open>Inl\<close> the exception; a handler of the source is a case distinction on the result.
    \<open>exn\<close> has the exceptions that derive from \<^verbatim>\<open>Exception\<close>, which is what the
    handlers of the source catch.
  \<^item> The functions of the standard library and of the HTML library that the scraper
    calls are modelled as far as the scraper uses them: \<^verbatim>\<open>datetime.strptime\<close> for the
    directives of its nine formats in the C locale, \<^verbatim>\<open>urllib.parse\<close> and
    \<^verbatim>\<open>time.sleep\<close> as of Python 3.11, the searches of BeautifulSoup on a parsed tree.
  \<^item> The network, the clock and the HTML parser are parameters, collected in the record
    \<open>env\<close>.
\<close>

datatype exn =
    ValueError
  | Timeout
  | ConnectionError
  | HTTPError nat
  | RequestException
  | OverflowError
  | OtherException

subsection \<open>Characters and \<^verbatim>\<open>str\<close> methods\<close>

definition code :: "char \<Rightarrow> nat" where
  "code c = of_char c"

text \<open>\<^verbatim>\<open>str.isspace\<close> on one character; the same set is the regular expression class
  \<^verbatim>\<open>\s\<close> of a \<^verbatim>\<open>str\<close> pattern.\<close>

definition py_isspace :: "char \<Rightarrow> bool" where
  "py_isspace c = (code c \<in> {9, 10, 11, 12, 13, 28, 29, 30, 31, 32, 133, 160})"

text \<open>The class \<^verbatim>\<open>\d\<close>: below 256 the only decimal digits are \<^verbatim>\<open>0\<close> to \<^verbatim>\<open>9\<close>.\<close>

definition is_digit :: "char \<Rightarrow> bool" where
  "is_digit c = (48 \<le> code c \<and> code c \<le> 57)"

definition in_range :: "char \<Rightarrow> char \<Rightarrow> char \<Rightarrow> bool" where
  "in_range lo hi c = (code lo \<le> code c \<and> code c \<le> code hi)"

text \<open>\<^verbatim>\<open>str.lower\<close> on one character below 256.\<close>

definition py_lower_char :: "char \<Rightarrow> char" where
  "py_lower_char c =
     (if (65 \<le> code c \<and> code c \<le> 90) \<or> (192 \<le> code c \<and> code c \<le> 222 \<and> code c \<noteq> 215)
      then char_of (code c + 32) else c)"

definition py_lower :: "string \<Rightarrow> string" where
  "py_lower s = map py_lower_char s"

definition py_lstrip :: "string \<Rightarrow> string" where
  "py_lstrip s = dropWhile py_isspace s"

definition py_rstrip :: "string \<Rightarrow> string" where
  "py_rstrip s = rev (dropWhile py_isspace (rev s))"

definition py_strip :: "string \<Rightarrow> string" where
  "py_strip s = py_rstrip (py_lstrip s)"

text \<open>\<^verbatim>\<open>int(text)\<close> on a text of decimal digits, possibly after blanks.\<close>

definition digit_val :: "char \<Rightarrow> nat" where
  "digit_val c = code c - 48"

definition int_of_digits :: "string \<Rightarrow> nat" where
  "int_of_digits s = foldl (\<lambda>n c. 10 * n + digit_val c) 0 (py_lstrip s)"

subsection \<open>\<^verbatim>\<open>datetime\<close>\<close>

record datetime =
  year :: nat
  month :: nat
  day :: nat
  hour :: nat
  minute :: nat
  second :: nat
  microsecond :: nat

text \<open>Naive \<^verbatim>\<open>datetime\<close> values compare as the tuples of their fields, first field
  first.\<close>

definition datetime_key :: "datetime \<Rightarrow> nat list" where
  "datetime_key d = [year d, month d, day d, hour d, minute d, second d, microsecond d]"

fun lex_le :: "nat list \<Rightarrow> nat list \<Rightarrow> bool" where
  "lex_le [] ys = True"
| "lex_le (x # xs) [] = False"
| "lex_le (x # xs) (y # ys) = (x < y \<or> (x = y \<and> lex_le xs ys))"

definition datetime_ge :: "datetime \<Rightarrow> datetime \<Rightarrow> bool" where
  "datetime_ge a b = lex_le (datetime_key b) (datetime_key a)"

definition datetime_lt :: "datetime \<Rightarrow> datetime \<Rightarrow> bool" where
  "datetime_lt a b = (lex_le (datetime_key a) (datetime_key b) \<and> datetime_key a \<noteq> datetime_key b)"

definition is_leap :: "nat \<Rightarrow> bool" where
  "is_leap y = (y mod 4 = 0 \<and> (y mod 100 \<noteq> 0 \<or> y mod 400 = 0))"

definition days_in_month :: "nat \<Rightarrow> nat \<Rightarrow> nat" where
  "days_in_month y m =
     (if m = 2 then (if is_leap y then 29 else 28)
      else if m \<in> {4, 6, 9, 11} then 30 else 31)"

text \<open>The constructors \<^verbatim>\<open>date(y, m, d)\<close> and \<^verbatim>\<open>datetime(y, m, d, H, M, S)\<close> raise
  \<^verbatim>\<open>ValueError\<close> on a field out of range.\<close>

definition date_ok :: "nat \<Rightarrow> nat \<Rightarrow> nat \<Rightarrow> bool" where
  "date_ok y m d = (1 \<le> y \<and> y \<le> 9999 \<and> 1 \<le> m \<and> m \<le> 12 \<and> 1 \<le> d \<and> d \<le> days_in_month y m)"

definition time_ok :: "nat \<Rightarrow> nat \<Rightarrow> nat \<Rightarrow> bool" where
  "time_ok H M S = (H \<le> 23 \<and> M \<le> 59 \<and> S \<le> 59)"

section \<open>\<^verbatim>\<open>datetime.strptime\<close>\<close>

text \<open>
  \<^verbatim>\<open>strptime\<close> turns the format into a regular expression, matches it at the start of
  the text ignoring case, and raises \<^verbatim>\<open>ValueError\<close> unless the first match found by
  backtracking ends at the end of the text. The model has the directives the scraper's
  formats use, with the alternatives of each in the library's order, the English month
  names, a blank run of the format as \<^verbatim>\<open>\s+\<close>, and any other character as itself.
\<close>

datatype re_item = DY | Dm | Dd | DH | DM | DS | DB | Db | Lit char | Spaces

definition directive :: "char \<Rightarrow> re_item option" where
  "directive c =
     (if c = CHR ''Y'' then Some DY else if c = CHR ''m'' then Some Dm
      else if c = CHR ''d'' then Some Dd else if c = CHR ''H'' then Some DH
      else if c = CHR ''M'' then Some DM else if c = CHR ''S'' then Some DS
      else if c = CHR ''B'' then Some DB else if c = CHR ''b'' then Some Db
      else if c = CHR ''%'' then Some (Lit CHR ''%'') else None)"

function pattern :: "string \<Rightarrow> re_item list option" where
  "pattern [] = Some []"
| "pattern (c # cs) =
     (if c = CHR ''%'' then
        (case cs of
           [] \<Rightarrow> None
         | d # ds \<Rightarrow>
             (case directive d of
                None \<Rightarrow> None
              | Some i \<Rightarrow> map_option (\<lambda>is. i # is) (pattern ds)))
      else if py_isspace c then
        map_option (\<lambda>is. Spaces # is) (pattern (dropWhile py_isspace cs))
      else map_option (\<lambda>is. Lit c # is) (pattern cs))"
  by pat_completeness auto
termination
  by (relation "measure length") (auto simp: le_imp_less_Suc length_dropWhile_le)

text \<open>One alternative of a directive: a fixed number of characters, each in a class.
  The value is \<^verbatim>\<open>int\<close> of the matched text.\<close>

fun cls1 :: "(char \<Rightarrow> bool) \<Rightarrow> string \<Rightarrow> (nat \<times> string) list" where
  "cls1 p (a # r) = (if p a then [(int_of_digits [a], r)] else [])"
| "cls1 p [] = []"

fun cls2 :: "(char \<Rightarrow> bool) \<Rightarrow> (char \<Rightarrow> bool) \<Rightarrow> string \<Rightarrow> (nat \<times> string) list" where
  "cls2 p q (a # b # r) = (if p a \<and> q b then [(int_of_digits [a, b], r)] else [])"
| "cls2 p q [a] = []"
| "cls2 p q [] = []"

fun cls4 :: "(char \<Rightarrow> bool) \<Rightarrow> string \<Rightarrow> (nat \<times> string) list" where
  "cls4 p (a # b # c # d # r) =
     (if p a \<and> p b \<and> p c \<and> p d then [(int_of_digits [a, b, c, d], r)] else [])"
| "cls4 p [a, b, c] = []"
| "cls4 p [a, b] = []"
| "cls4 p [a] = []"
| "cls4 p [] = []"

text \<open>A month name, matched ignoring case; the value is its number.\<close>

definition name_alt :: "string \<times> nat \<Rightarrow> string \<Rightarrow> (nat \<times> string) list" where
  "name_alt nm s =
     (if length (fst nm) \<le> length s \<and> py_lower (take (length (fst nm)) s) = fst nm
      then [(snd nm, drop (length (fst nm)) s)] else [])"

text \<open>\<^verbatim>\<open>f_month[1:]\<close> and \<^verbatim>\<open>a_month[1:]\<close> as \<^verbatim>\<open>__seqToRE\<close> orders them: longest
  first, the calendar order kept among names of one length.\<close>

definition f_month_re :: "(string \<times> nat) list" where
  "f_month_re =
     [(''september'', 9), (''february'', 2), (''november'', 11), (''december'', 12),
      (''january'', 1), (''october'', 10), (''august'', 8), (''march'', 3), (''april'', 4),
      (''june'', 6), (''july'', 7), (''may'', 5)]"

definition a_month_re :: "(string \<times> nat) list" where
  "a_month_re =
     [(''jan'', 1), (''feb'', 2), (''mar'', 3), (''apr'', 4), (''may'', 5), (''jun'', 6),
      (''jul'', 7), (''aug'', 8), (''sep'', 9), (''oct'', 10), (''nov'', 11), (''dec'', 12)]"

text \<open>\<^verbatim>\<open>\s+\<close> is greedy: the longest run first, then shorter ones, never none.\<close>

definition spaces_alts :: "string \<Rightarrow> (nat \<times> string) list" where
  "spaces_alts s =
     map (\<lambda>k. (0, drop k s)) (rev [1 ..< Suc (length (takeWhile py_isspace s))])"

definition item_alts :: "re_item \<Rightarrow> string \<Rightarrow> (nat \<times> string) list" where
  "item_alts i s =
     (case i of
        DY \<Rightarrow> cls4 is_digit s
      | Dm \<Rightarrow> cls2 (\<lambda>c. c = CHR ''1'') (in_range CHR ''0'' CHR ''2'') s
             @ cls2 (\<lambda>c. c = CHR ''0'') (in_range CHR ''1'' CHR ''9'') s
             @ cls1 (in_range CHR ''1'' CHR ''9'') s
      | Dd \<Rightarrow> cls2 (\<lambda>c. c = CHR ''3'') (in_range CHR ''0'' CHR ''1'') s
             @ cls2 (in_range CHR ''1'' CHR ''2'') is_digit s
             @ cls2 (\<lambda>c. c = CHR ''0'') (in_range CHR ''1'' CHR ''9'') s
             @ cls1 (in_range CHR ''1'' CHR ''9'') s
             @ cls2 (\<lambda>c. c = CHR '' '') (in_range CHR ''1'' CHR ''9'') s
      | DH \<Rightarrow> cls2 (\<lambda>c. c = CHR ''2'') (in_range CHR ''0'' CHR ''3'') s
             @ cls2 (in_range CHR ''0'' CHR ''1'') is_digit s
             @ cls1 is_digit s
      | DM \<Rightarrow> cls2 (in_range CHR ''0'' CHR ''5'') is_digit s
             @ cls1 is_digit s
      | DS \<Rightarrow> cls2 (\<lambda>c. c = CHR ''6'') (in_range CHR ''0'' CHR ''1'') s
             @ cls2 (in_range CHR ''0'' CHR ''5'') is_digit s
             @ cls1 is_digit s
      | DB \<Rightarrow> concat (map (\<lambda>nm. name_alt nm s) f_month_re)
      | Db \<Rightarrow> concat (map (\<lambda>nm. name_alt nm s) a_month_re)
      | Lit c \<Rightarrow>
          (case s of
             [] \<Rightarrow> []
           | a # r \<Rightarrow> if py_lower_char a = py_lower_char c then [(0, r)] else [])
      | Spaces \<Rightarrow> spaces_alts s)"

text \<open>The fields \<^verbatim>\<open>_strptime\<close> collects; \<^verbatim>\<open>year\<close> starts as \<^verbatim>\<open>None\<close>, month and day
  as 1, the time as 0.\<close>

record fields =
  f_year :: "nat option"
  f_month :: nat
  f_day :: nat
  f_hour :: nat
  f_minute :: nat
  f_second :: nat

definition init_fields :: fields where
  "init_fields = \<lparr>f_year = None, f_month = 1, f_day = 1, f_hour = 0, f_minute = 0, f_second = 0\<rparr>"

definition set_field :: "re_item \<Rightarrow> nat \<Rightarrow> fields \<Rightarrow> fields" where
  "set_field i v f =
     (case i of
        DY \<Rightarrow> f\<lparr>f_year := Some v\<rparr>
      | Dm \<Rightarrow> f\<lparr>f_month := v\<rparr>
      | DB \<Rightarrow> f\<lparr>f_month := v\<rparr>
      | Db \<Rightarrow> f\<lparr>f_month := v\<rparr>
      | Dd \<Rightarrow> f\<lparr>f_day := v\<rparr>
      | DH \<Rightarrow> f\<lparr>f_hour := v\<rparr>
      | DM \<Rightarrow> f\<lparr>f_minute := v\<rparr>
      | DS \<Rightarrow> f\<lparr>f_second := v\<rparr>
      | Lit c \<Rightarrow> f
      | Spaces \<Rightarrow> f)"

text \<open>All the ways the items match a prefix of the text, in the order a backtracking
  matcher finds them; \<^verbatim>\<open>re.match\<close> returns the first.\<close>

fun re_match :: "re_item list \<Rightarrow> fields \<Rightarrow> string \<Rightarrow> (fields \<times> string) list" where
  "re_match [] f s = [(f, s)]"
| "re_match (i # is) f s =
     concat (map (\<lambda>vr. re_match is (set_field i (fst vr) f) (snd vr)) (item_alts i s))"

text \<open>After the match: without a year the date is checked in 1904 when it is 29
  February and in 1900 otherwise, and the year returned is 1900; then the
  \<^verbatim>\<open>datetime\<close> constructor checks every field.\<close>

definition mk_datetime :: "fields \<Rightarrow> exn + datetime" where
  "mk_datetime f =
     (let y0 = (case f_year f of
                  Some y \<Rightarrow> y
                | None \<Rightarrow> if f_month f = 2 \<and> f_day f = 29 then 1904 else 1900);
          y = (case f_year f of Some y \<Rightarrow> y | None \<Rightarrow> 1900)
      in if \<not> date_ok y0 (f_month f) (f_day f) then Inl ValueError
         else if \<not> date_ok y (f_month f) (f_day f) then Inl ValueError
         else if \<not> time_ok (f_hour f) (f_minute f) (f_second f) then Inl ValueError
         else Inr \<lparr>year = y, month = f_month f, day = f_day f, hour = f_hour f,
                   minute = f_minute f, second = f_second f, microsecond = 0\<rparr>)"

definition strptime :: "string \<Rightarrow> string \<Rightarrow> exn + datetime" where
  "strptime data_string fmt =
     (case pattern fmt of
        None \<Rightarrow> Inl ValueError
      | Some items \<Rightarrow>
          (case re_match items init_fields data_string of
             [] \<Rightarrow> Inl ValueError
           | found # _ \<Rightarrow>
               if snd found \<noteq> [] then Inl ValueError else mk_datetime (fst found)))"

section \<open>The date normaliser and the recency predicate\<close>

definition date_formats :: "string list" where
  "date_formats =
     [''%Y-%m-%d'',
      ''%Y-%m-%dT%H:%M:%S'',
      ''%Y-%m-%dT%H:%M:%SZ'',
      ''%B %d, %Y'',
      ''%b %d, %Y'',
      ''%d %B %Y'',
      ''%d %b %Y'',
      ''%m/%d/%Y'',
      ''%d/%m/%Y'']"

text \<open>The loop over the formats: \<^verbatim>\<open>ValueError\<close> is caught and the next format tried,
  any other exception leaves the loop and the function.\<close>

fun try_formats :: "string \<Rightarrow> string list \<Rightarrow> exn + datetime option" where
  "try_formats date_text [] = Inr None"
| "try_formats date_text (fmt # fmts) =
     (case strptime date_text fmt of
        Inr d \<Rightarrow> Inr (Some d)
      | Inl ValueError \<Rightarrow> try_formats date_text fmts
      | Inl e \<Rightarrow> Inl e)"

definition parse_date :: "string \<Rightarrow> exn + datetime option" where
  "parse_date date_text =
     (if date_text = [] then Inr None
      else try_formats (py_strip date_text) date_formats)"

definition is_recent_post :: "datetime option \<Rightarrow> datetime \<Rightarrow> bool" where
  "is_recent_post post_date cutoff_date =
     (case post_date of
        None \<Rightarrow> True
      | Some d \<Rightarrow> datetime_ge d cutoff_date)"

text \<open>The texts the month-first format can accept start with one or two digits and a
  slash.\<close>

definition slash_shape :: "string \<Rightarrow> bool" where
  "slash_shape s \<longleftrightarrow>
     (\<exists>a r. s = a # CHR ''/'' # r \<and> is_digit a) \<or>
     (\<exists>a b r. s = a # b # CHR ''/'' # r \<and> is_digit a \<and> is_digit b)"

section \<open>\<^verbatim>\<open>urllib.parse\<close>\<close>

text \<open>
  \<^verbatim>\<open>urlsplit\<close>, \<^verbatim>\<open>urlparse\<close>, \<^verbatim>\<open>urlunparse\<close> and \<^verbatim>\<open>urljoin\<close> as the library
  has them. The check of a bracketed host (\<^verbatim>\<open>_check_bracketed_host\<close>, which parses an
  IPv6 or IPvFuture address and raises \<^verbatim>\<open>ValueError\<close> on any other text) is the
  parameter \<open>host_ok\<close>. \<^verbatim>\<open>_checknetloc\<close> raises only when the compatibility
  normal form of a character brings in one of \<^verbatim>\<open>/?#@:\<close>, which no character below 256
  does.
\<close>

definition index_of :: "char \<Rightarrow> string \<Rightarrow> nat option" where
  "index_of c s = (if c \<in> set s then Some (length (takeWhile (\<lambda>x. x \<noteq> c) s)) else None)"

text \<open>\<^verbatim>\<open>s.split(c, 1)\<close> when \<^verbatim>\<open>c\<close> is in \<^verbatim>\<open>s\<close>.\<close>

definition split_first :: "char \<Rightarrow> string \<Rightarrow> string \<times> string" where
  "split_first c s = (takeWhile (\<lambda>x. x \<noteq> c) s, drop 1 (dropWhile (\<lambda>x. x \<noteq> c) s))"

text \<open>\<^verbatim>\<open>s.split(c)\<close> and \<^verbatim>\<open>c.join(parts)\<close>.\<close>

fun split_on :: "char \<Rightarrow> string \<Rightarrow> string list" where
  "split_on c [] = [[]]"
| "split_on c (x # xs) =
     (if x = c then [] # split_on c xs
      else (case split_on c xs of
              [] \<Rightarrow> [[x]]
            | p # ps \<Rightarrow> (x # p) # ps))"

fun join_with :: "char \<Rightarrow> string list \<Rightarrow> string" where
  "join_with c [] = []"
| "join_with c [p] = p"
| "join_with c (p # q # ps) = p @ c # join_with c (q # ps)"

definition uses_relative :: "string list" where
  "uses_relative =
     ['''', ''ftp'', ''http'', ''gopher'', ''nntp'', ''imap'', ''wais'', ''file'', ''https'',
      ''shttp'', ''mms'', ''prospero'', ''rtsp'', ''rtsps'', ''rtspu'', ''sftp'', ''svn'',
      ''svn+ssh'', ''ws'', ''wss'']"

definition uses_netloc :: "string list" where
  "uses_netloc =
     ['''', ''ftp'', ''http'', ''gopher'', ''nntp'', ''telnet'', ''imap'', ''wais'', ''file'',
      ''mms'', ''https'', ''shttp'', ''snews'', ''prospero'', ''rtsp'', ''rtsps'', ''rtspu'',
      ''rsync'', ''svn'', ''svn+ssh'', ''sftp'', ''nfs'', ''git'', ''git+ssh'', ''ws'', ''wss'']"

definition uses_params :: "string list" where
  "uses_params =
     ['''', ''ftp'', ''hdl'', ''prospero'', ''http'', ''imap'', ''https'', ''shttp'', ''rtsp'',
      ''rtsps'', ''rtspu'', ''sip'', ''sips'', ''mms'', ''sftp'', ''tel'']"

definition ascii_alpha :: "char \<Rightarrow> bool" where
  "ascii_alpha c = ((65 \<le> code c \<and> code c \<le> 90) \<or> (97 \<le> code c \<and> code c \<le> 122))"

definition scheme_char :: "char \<Rightarrow> bool" where
  "scheme_char c = (ascii_alpha c \<or> is_digit c \<or> c = CHR ''+'' \<or> c = CHR ''-'' \<or> c = CHR ''.'')"

text \<open>The characters \<^verbatim>\<open>urlsplit\<close> strips from the front of the URL (code points 0 to 32),
  and those it removes everywhere (tab, carriage return, line feed).\<close>

definition c0_or_space :: "char \<Rightarrow> bool" where
  "c0_or_space c = (code c \<le> 32)"

definition unsafe_byte :: "char \<Rightarrow> bool" where
  "unsafe_byte c = (code c = 9 \<or> code c = 13 \<or> code c = 10)"

definition sanitize_url :: "string \<Rightarrow> string" where
  "sanitize_url url = filter (\<lambda>c. \<not> unsafe_byte c) (dropWhile c0_or_space url)"

definition sanitize_scheme :: "string \<Rightarrow> string" where
  "sanitize_scheme scheme =
     filter (\<lambda>c. \<not> unsafe_byte c)
       (rev (dropWhile c0_or_space (rev (dropWhile c0_or_space scheme))))"

text \<open>What \<^verbatim>\<open>urlsplit\<close> accepts as a scheme: a letter followed by scheme characters.\<close>

definition valid_scheme :: "string \<Rightarrow> bool" where
  "valid_scheme s = (s \<noteq> [] \<and> ascii_alpha (hd s) \<and> list_all scheme_char s)"

text \<open>The scheme written in the URL, lower-cased, and the text after its colon.\<close>

definition split_scheme :: "string \<Rightarrow> (string \<times> string) option" where
  "split_scheme url =
     (case index_of CHR '':'' url of
        None \<Rightarrow> None
      | Some i \<Rightarrow>
          if 0 < i \<and> ascii_alpha (hd url) \<and> list_all scheme_char (take i url)
          then Some (py_lower (take i url), drop (Suc i) url)
          else None)"

text \<open>\<^verbatim>\<open>_splitnetloc(url, 2)\<close>: the text after \<^verbatim>\<open>//\<close> up to the first of \<^verbatim>\<open>/?#\<close>, and
  the rest.\<close>

definition netloc_delim :: "char \<Rightarrow> bool" where
  "netloc_delim c = (c = CHR ''/'' \<or> c = CHR ''?'' \<or> c = CHR ''#'')"

definition splitnetloc :: "string \<Rightarrow> string \<times> string" where
  "splitnetloc url =
     (takeWhile (\<lambda>c. \<not> netloc_delim c) (drop 2 url),
      dropWhile (\<lambda>c. \<not> netloc_delim c) (drop 2 url))"

definition bracketed_host :: "string \<Rightarrow> string" where
  "bracketed_host netloc =
     takeWhile (\<lambda>c. c \<noteq> CHR '']'') (drop 1 (dropWhile (\<lambda>c. c \<noteq> CHR ''['') netloc))"

record split_result =
  sr_scheme :: string
  sr_netloc :: string
  sr_path :: string
  sr_query :: string
  sr_fragment :: string

definition split_tail :: "string \<Rightarrow> string \<Rightarrow> string \<Rightarrow> split_result" where
  "split_tail scheme netloc url =
     (let (url1, fragment) =
            (if CHR ''#'' \<in> set url then split_first CHR ''#'' url else (url, ''''));
          (url2, query) =
            (if CHR ''?'' \<in> set url1 then split_first CHR ''?'' url1 else (url1, ''''))
      in \<lparr>sr_scheme = scheme, sr_netloc = netloc, sr_path = url2, sr_query = query,
           sr_fragment = fragment\<rparr>)"

definition urlsplit :: "(string \<Rightarrow> bool) \<Rightarrow> string \<Rightarrow> string \<Rightarrow> exn + split_result" where
  "urlsplit host_ok url0 scheme0 =
     (let url = sanitize_url url0;
          (scheme, url1) =
            (case split_scheme url of
               Some found \<Rightarrow> found
             | None \<Rightarrow> (sanitize_scheme scheme0, url))
      in if take 2 url1 = ''//'' then
           (let (netloc, url2) = splitnetloc url1
            in if (CHR ''['' \<in> set netloc \<and> CHR '']'' \<notin> set netloc) \<or>
                  (CHR '']'' \<in> set netloc \<and> CHR ''['' \<notin> set netloc)
               then Inl ValueError
               else if CHR ''['' \<in> set netloc \<and> CHR '']'' \<in> set netloc \<and>
                       \<not> host_ok (bracketed_host netloc)
               then Inl ValueError
               else Inr (split_tail scheme netloc url2))
         else Inr (split_tail scheme '''' url1))"

record parse_result =
  pr_scheme :: string
  pr_netloc :: string
  pr_path :: string
  pr_params :: string
  pr_query :: string
  pr_fragment :: string

text \<open>\<^verbatim>\<open>_splitparams\<close>, called when \<^verbatim>\<open>;\<close> is in the path: the parameters start at the
  first \<^verbatim>\<open>;\<close> of the last segment.\<close>

definition splitparams :: "string \<Rightarrow> string \<times> string" where
  "splitparams url =
     (if CHR ''/'' \<in> set url then
        (let last_seg = rev (takeWhile (\<lambda>c. c \<noteq> CHR ''/'') (rev url));
             head = take (length url - length last_seg) url
         in if CHR '';'' \<in> set last_seg
            then (head @ fst (split_first CHR '';'' last_seg), snd (split_first CHR '';'' last_seg))
            else (url, ''''))
      else split_first CHR '';'' url)"

definition urlparse :: "(string \<Rightarrow> bool) \<Rightarrow> string \<Rightarrow> string \<Rightarrow> exn + parse_result" where
  "urlparse host_ok url scheme =
     (case urlsplit host_ok url scheme of
        Inl e \<Rightarrow> Inl e
      | Inr r \<Rightarrow>
          (let (path, params) =
                 (if sr_scheme r \<in> set uses_params \<and> CHR '';'' \<in> set (sr_path r)
                  then splitparams (sr_path r) else (sr_path r, ''''))
           in Inr \<lparr>pr_scheme = sr_scheme r, pr_netloc = sr_netloc r, pr_path = path,
                    pr_params = params, pr_query = sr_query r, pr_fragment = sr_fragment r\<rparr>))"

definition urlunsplit :: "string \<Rightarrow> string \<Rightarrow> string \<Rightarrow> string \<Rightarrow> string \<Rightarrow> string" where
  "urlunsplit scheme netloc url0 query fragment =
     (let url1 =
            (if netloc \<noteq> [] \<or> (scheme \<noteq> [] \<and> scheme \<in> set uses_netloc) \<or> take 2 url0 = ''//''
             then ''//'' @ netloc @
                  (if url0 \<noteq> [] \<and> take 1 url0 \<noteq> ''/'' then CHR ''/'' # url0 else url0)
             else url0);
          url2 = (if scheme \<noteq> [] then scheme @ CHR '':'' # url1 else url1);
          url3 = (if query \<noteq> [] then url2 @ CHR ''?'' # query else url2)
      in if fragment \<noteq> [] then url3 @ CHR ''#'' # fragment else url3)"

definition urlunparse ::
  "string \<Rightarrow> string \<Rightarrow> string \<Rightarrow> string \<Rightarrow> string \<Rightarrow> string \<Rightarrow> string" where
  "urlunparse scheme netloc url params query fragment =
     urlunsplit scheme netloc (if params \<noteq> [] then url @ CHR '';'' # params else url)
       query fragment"

text \<open>The loop of \<^verbatim>\<open>urljoin\<close> over the path segments: \<^verbatim>\<open>..\<close> pops a segment if there
  is one, \<^verbatim>\<open>.\<close> is dropped, any other segment is appended.\<close>

fun resolve_segments :: "string list \<Rightarrow> string list \<Rightarrow> string list" where
  "resolve_segments resolved [] = resolved"
| "resolve_segments resolved (seg # segs) =
     (if seg = ''..'' then resolve_segments (butlast resolved) segs
      else if seg = ''.'' then resolve_segments resolved segs
      else resolve_segments (resolved @ [seg]) segs)"

text \<open>\<^verbatim>\<open>segments[1:-1] = filter(None, segments[1:-1])\<close>.\<close>

definition filter_inner :: "string list \<Rightarrow> string list" where
  "filter_inner segments =
     (if length segments \<le> 1 then segments
      else take 1 segments @ filter (\<lambda>g. g \<noteq> []) (butlast (drop 1 segments)) @ [last segments])"

definition urljoin :: "(string \<Rightarrow> bool) \<Rightarrow> string \<Rightarrow> string \<Rightarrow> exn + string" where
  "urljoin host_ok base url =
     (if base = [] then Inr url
      else if url = [] then Inr base
      else
        (case urlparse host_ok base '''' of
           Inl e \<Rightarrow> Inl e
         | Inr b \<Rightarrow>
             (case urlparse host_ok url (pr_scheme b) of
                Inl e \<Rightarrow> Inl e
              | Inr u \<Rightarrow>
                  if pr_scheme u \<noteq> pr_scheme b \<or> pr_scheme u \<notin> set uses_relative then Inr url
                  else if pr_scheme u \<in> set uses_netloc \<and> pr_netloc u \<noteq> [] then
                    Inr (urlunparse (pr_scheme u) (pr_netloc u) (pr_path u) (pr_params u)
                           (pr_query u) (pr_fragment u))
                  else
                    (let netloc = (if pr_scheme u \<in> set uses_netloc then pr_netloc b
                                   else pr_netloc u)
                     in if pr_path u = [] \<and> pr_params u = [] then
                          Inr (urlunparse (pr_scheme u) netloc (pr_path b) (pr_params b)
                                 (if pr_query u = [] then pr_query b else pr_query u)
                                 (pr_fragment u))
                        else
                          (let base_parts0 = split_on CHR ''/'' (pr_path b);
                               base_parts = (if last base_parts0 \<noteq> [] then butlast base_parts0
                                             else base_parts0);
                               segments =
                                 (if take 1 (pr_path u) = ''/'' then split_on CHR ''/'' (pr_path u)
                                  else filter_inner (base_parts @ split_on CHR ''/'' (pr_path u)));
                               resolved0 = resolve_segments [] segments;
                               resolved = (if last segments = ''.'' \<or> last segments = ''..''
                                           then resolved0 @ [[]] else resolved0);
                               joined = join_with CHR ''/'' resolved
                           in Inr (urlunparse (pr_scheme u) netloc
                                     (if joined = [] then ''/'' else joined)
                                     (pr_params u) (pr_query u) (pr_fragment u)))))))"

text \<open>A URL is absolute when it names its scheme.\<close>

definition is_absolute :: "string \<Rightarrow> bool" where
  "is_absolute url = (split_scheme (sanitize_url url) \<noteq> None)"

section \<open>More \<^verbatim>\<open>str\<close> methods\<close>

text \<open>\<^verbatim>\<open>pat in s\<close>.\<close>

fun contains :: "string \<Rightarrow> string \<Rightarrow> bool" where
  "contains pat [] = (pat = [])"
| "contains pat (c # cs) = (take (length pat) (c # cs) = pat \<or> contains pat cs)"

text \<open>\<^verbatim>\<open>re.sub(r'\s+', ' ', s)\<close>; the flag says that the character before was a blank.\<close>

fun collapse_from :: "bool \<Rightarrow> string \<Rightarrow> string" where
  "collapse_from prev [] = []"
| "collapse_from prev (c # cs) =
     (if py_isspace c then
        (if prev then collapse_from True cs else CHR '' '' # collapse_from True cs)
      else c # collapse_from False cs)"

definition collapse_ws :: "string \<Rightarrow> string" where
  "collapse_ws s = collapse_from False s"

text \<open>The runs of non-blank characters of a text (\<^verbatim>\<open>re.findall(r'\S+', s)\<close>).\<close>

fun ws_split_acc :: "string \<Rightarrow> string \<Rightarrow> string list" where
  "ws_split_acc cur [] = (if cur = [] then [] else [cur])"
| "ws_split_acc cur (c # cs) =
     (if py_isspace c then (if cur = [] then ws_split_acc [] cs else cur # ws_split_acc [] cs)
      else ws_split_acc (cur @ [c]) cs)"

definition ws_split :: "string \<Rightarrow> string list" where
  "ws_split s = ws_split_acc [] s"

text \<open>\<^verbatim>\<open>s.replace(old, new)\<close>.\<close>

function py_replace :: "string \<Rightarrow> string \<Rightarrow> string \<Rightarrow> string" where
  "py_replace old new [] = (if old = [] then new else [])"
| "py_replace old new (c # cs) =
     (if old = [] then new @ concat (map (\<lambda>x. x # new) (c # cs))
      else if take (length old) (c # cs) = old
        then new @ py_replace old new (drop (length old) (c # cs))
      else c # py_replace old new cs)"
  by pat_completeness auto
termination
  by (relation "measure (\<lambda>(old, new, s). length s)") auto

text \<open>A text as the list of its code points, for the one text of the scraper that can
  leave the range below 256.\<close>

definition code_points :: "string \<Rightarrow> nat list" where
  "code_points s = map code s"

text \<open>\<^verbatim>\<open>s.title()\<close>: a character after a cased character is lower-cased, any other
  character is title-cased. Below 256 the cased characters are the letters, the ordinal
  indicators and the micro sign; the title case of a lower-case letter is 32 below it,
  except for \<^verbatim>\<open>U+00DF\<close>, which becomes \<^verbatim>\<open>Ss\<close>, and for \<^verbatim>\<open>U+00FF\<close> and
  \<^verbatim>\<open>U+00B5\<close>, whose title cases \<^verbatim>\<open>U+0178\<close> and \<^verbatim>\<open>U+039C\<close> are above 255.\<close>

definition is_cased :: "char \<Rightarrow> bool" where
  "is_cased c =
     ((65 \<le> code c \<and> code c \<le> 90) \<or> (97 \<le> code c \<and> code c \<le> 122) \<or>
      code c = 170 \<or> code c = 181 \<or> code c = 186 \<or>
      (192 \<le> code c \<and> code c \<le> 214) \<or> (216 \<le> code c \<and> code c \<le> 246) \<or>
      (248 \<le> code c \<and> code c \<le> 255))"

definition title_points :: "char \<Rightarrow> nat list" where
  "title_points c =
     (if (97 \<le> code c \<and> code c \<le> 122) \<or> (224 \<le> code c \<and> code c \<le> 246) \<or>
         (248 \<le> code c \<and> code c \<le> 254)
      then [code c - 32]
      else if code c = 223 then [83, 115]
      else if code c = 255 then [376]
      else if code c = 181 then [924]
      else [code c])"

fun title_from :: "bool \<Rightarrow> string \<Rightarrow> nat list" where
  "title_from prev [] = []"
| "title_from prev (c # cs) =
     (if prev then [code (py_lower_char c)] else title_points c) @ title_from (is_cased c) cs"

definition py_title :: "string \<Rightarrow> nat list" where
  "py_title s = title_from False s"

text \<open>\<^verbatim>\<open>datetime.isoformat()\<close>, for the years from 1 to 9999 a \<^verbatim>\<open>datetime\<close> can have.\<close>

definition dig :: "nat \<Rightarrow> char" where
  "dig n = ''0123456789'' ! (n mod 10)"

definition pad2 :: "nat \<Rightarrow> string" where
  "pad2 n = [dig (n div 10), dig n]"

definition pad4 :: "nat \<Rightarrow> string" where
  "pad4 n = [dig (n div 1000), dig (n div 100), dig (n div 10), dig n]"

definition pad6 :: "nat \<Rightarrow> string" where
  "pad6 n =
     [dig (n div 100000), dig (n div 10000), dig (n div 1000), dig (n div 100), dig (n div 10),
      dig n]"

definition isoformat :: "datetime \<Rightarrow> string" where
  "isoformat d =
     pad4 (year d) @ ''-'' @ pad2 (month d) @ ''-'' @ pad2 (day d) @ ''T'' @
     pad2 (hour d) @ '':'' @ pad2 (minute d) @ '':'' @ pad2 (second d) @
     (if microsecond d \<noteq> 0 then ''.'' @ pad6 (microsecond d) else [])"

section \<open>The parsed document\<close>

text \<open>
  The tree \<^verbatim>\<open>BeautifulSoup(html_content, 'html.parser')\<close> builds (BeautifulSoup 4.11
  and later): a tag has a name (in lower case), its attributes with their values as
  written, and its children in document order. The document itself is a tag whose
  children are the top-level nodes. There are three kinds of string:
  \<^item> \<open>Text\<close> is an ordinary string (\<^verbatim>\<open>NavigableString\<close>, \<^verbatim>\<open>CData\<close>);
  \<^item> \<open>Held k s\<close> is the text \<open>s\<close> inside an element named \<open>k\<close>, for \<open>k\<close> one of
    \<^verbatim>\<open>script\<close>, \<^verbatim>\<open>style\<close>, \<^verbatim>\<open>template\<close>, \<^verbatim>\<open>rt\<close> and \<^verbatim>\<open>rp\<close>, which the library
    keeps in a string class of its own for each of these names;
  \<^item> \<open>Special\<close> is a comment, a declaration, a doctype or a processing instruction.

  The value of \<^verbatim>\<open>class\<close> is kept as written here; the library holds it as the list of
  its blank-separated words, which \<open>class_values\<close> gives.
\<close>

datatype node =
    Tag string "(string \<times> string) list" "node list"
  | Text string
  | Held string string
  | Special string

fun is_tag :: "node \<Rightarrow> bool" where
  "is_tag (Tag n a cs) = True"
| "is_tag (Text s) = False"
| "is_tag (Held k s) = False"
| "is_tag (Special s) = False"

fun tag_name :: "node \<Rightarrow> string" where
  "tag_name (Tag n a cs) = n"
| "tag_name (Text s) = []"
| "tag_name (Held k s) = []"
| "tag_name (Special s) = []"

text \<open>\<^verbatim>\<open>tag.get(key)\<close>.\<close>

fun get_attr :: "node \<Rightarrow> string \<Rightarrow> string option" where
  "get_attr (Tag n a cs) k = map_of a k"
| "get_attr (Text s) k = None"
| "get_attr (Held h s) k = None"
| "get_attr (Special s) k = None"

text \<open>\<^verbatim>\<open>tag.descendants\<close>: every node below the tag, in document order.\<close>

fun descendants :: "node \<Rightarrow> node list" where
  "descendants (Tag n a cs) = concat (map (\<lambda>c. c # descendants c) cs)"
| "descendants (Text s) = []"
| "descendants (Held k s) = []"
| "descendants (Special s) = []"

text \<open>\<^verbatim>\<open>get_text\<close> of a tag joins the strings below it that are of the classes the tag
  is interested in: for a tag named \<^verbatim>\<open>script\<close>, \<^verbatim>\<open>style\<close>, \<^verbatim>\<open>template\<close>, \<^verbatim>\<open>rt\<close> or
  \<^verbatim>\<open>rp\<close> the strings held for that name, for any other tag the ordinary strings.\<close>

definition string_containers :: "string list" where
  "string_containers = [''rt'', ''rp'', ''style'', ''script'', ''template'']"

fun strings_of :: "string \<Rightarrow> node \<Rightarrow> string" where
  "strings_of n (Tag m a cs) = concat (map (strings_of n) cs)"
| "strings_of n (Text s) = (if n \<in> set string_containers then [] else s)"
| "strings_of n (Held k s) = (if n = k \<and> k \<in> set string_containers then s else [])"
| "strings_of n (Special s) = []"

fun get_text :: "node \<Rightarrow> string" where
  "get_text (Tag n a cs) = concat (map (strings_of n) cs)"
| "get_text (Text s) = s"
| "get_text (Held k s) = []"
| "get_text (Special s) = []"

text \<open>\<^verbatim>\<open>tag.string\<close>: the string of a tag whose only child is a string, or a tag that
  has one.\<close>

fun node_string :: "node \<Rightarrow> string option" where
  "node_string (Tag n a [c]) = node_string c"
| "node_string (Tag n a []) = None"
| "node_string (Tag n a (c # d # cs)) = None"
| "node_string (Text s) = Some s"
| "node_string (Held k s) = Some s"
| "node_string (Special s) = Some s"

definition class_values :: "string \<Rightarrow> string list" where
  "class_values v = ws_split v"

text \<open>A tag whose name is one of the names given (\<^verbatim>\<open>find(['h1', 'h2'])\<close>).\<close>

definition named :: "string list \<Rightarrow> node \<Rightarrow> bool" where
  "named names n = (is_tag n \<and> tag_name n \<in> set names)"

text \<open>\<^verbatim>\<open>class_=re.compile('a|b', re.I)\<close>: the tag has a class attribute and the
  expression is found in one of its words or in the words joined by blanks.\<close>

definition re_search_any :: "string list \<Rightarrow> string \<Rightarrow> bool" where
  "re_search_any alternatives s = list_ex (\<lambda>p. contains p (py_lower s)) alternatives"

definition class_search :: "string list \<Rightarrow> node \<Rightarrow> bool" where
  "class_search alternatives n =
     (case get_attr n ''class'' of
        None \<Rightarrow> False
      | Some v \<Rightarrow>
          list_ex (re_search_any alternatives) (class_values v) \<or>
          re_search_any alternatives (join_with CHR '' '' (class_values v)))"

text \<open>The two forms of CSS selector the scraper uses: a type selector such as
  \<^verbatim>\<open>article\<close>, and \<^verbatim>\<open>[class*="text"]\<close>, which holds of a tag whose class words, joined by
  blanks, contain the text.\<close>

datatype css = Type_sel string | Class_sub string

definition css_match :: "css \<Rightarrow> node \<Rightarrow> bool" where
  "css_match sel n =
     (is_tag n \<and>
      (case sel of
         Type_sel name \<Rightarrow> tag_name n = name
       | Class_sub text \<Rightarrow>
           (case get_attr n ''class'' of
              None \<Rightarrow> False
            | Some v \<Rightarrow> contains text (join_with CHR '' '' (class_values v)))))"

definition select :: "node \<Rightarrow> css \<Rightarrow> node list" where
  "select root sel = filter (css_match sel) (descendants root)"

definition select_one :: "node \<Rightarrow> css \<Rightarrow> node option" where
  "select_one root sel = find (css_match sel) (descendants root)"

definition find_tag :: "node \<Rightarrow> (node \<Rightarrow> bool) \<Rightarrow> node option" where
  "find_tag root p = find p (descendants root)"

definition find_all :: "node \<Rightarrow> (node \<Rightarrow> bool) \<Rightarrow> node list" where
  "find_all root p = filter p (descendants root)"

section \<open>The post extractor\<close>

record post =
  p_title :: string
  p_url :: string
  p_date :: "datetime option"
  p_summary :: string
  p_company :: "nat list"
  p_scraped_at :: string

text \<open>The entries of \<^verbatim>\<open>title_selectors\<close>: a list of names goes to \<^verbatim>\<open>element.find\<close>, a
  selector text to \<^verbatim>\<open>element.select_one\<close>.\<close>

datatype title_selector = By_names "string list" | By_css css

definition title_selectors :: "title_selector list" where
  "title_selectors =
     [By_names [''h1'', ''h2'', ''h3'', ''h4''],
      By_names [''a''],
      By_css (Class_sub ''title''),
      By_css (Class_sub ''headline'')]"

definition run_title_selector :: "node \<Rightarrow> title_selector \<Rightarrow> node option" where
  "run_title_selector element sel =
     (case sel of
        By_names names \<Rightarrow> find_tag element (named names)
      | By_css c \<Rightarrow> select_one element c)"

text \<open>The loop over \<^verbatim>\<open>title_selectors\<close>: each selector overwrites \<^verbatim>\<open>title_elem\<close>; the
  loop stops at the first element found whose stripped text is not empty.\<close>

fun title_loop :: "node \<Rightarrow> title_selector list \<Rightarrow> node option \<Rightarrow> node option" where
  "title_loop element [] title_elem = title_elem"
| "title_loop element (sel # sels) title_elem =
     (case run_title_selector element sel of
        None \<Rightarrow> title_loop element sels None
      | Some t \<Rightarrow>
          if py_strip (get_text t) \<noteq> [] then Some t else title_loop element sels (Some t))"

definition title_elem :: "node \<Rightarrow> node option" where
  "title_elem element = title_loop element title_selectors None"

definition title_of :: "node \<Rightarrow> string" where
  "title_of element =
     py_strip (collapse_ws
       (case title_elem element of
          Some t \<Rightarrow> py_strip (get_text t)
        | None \<Rightarrow> ''No title found''))"

text \<open>The test of \<^verbatim>\<open>find('a', href=True)\<close>: an anchor that has the attribute, whatever
  its value.\<close>

definition anchor_with_href :: "node \<Rightarrow> bool" where
  "anchor_with_href n = (named [''a''] n \<and> get_attr n ''href'' \<noteq> None)"

definition link_elem :: "node \<Rightarrow> node option" where
  "link_elem element =
     (case title_elem element of
        Some t \<Rightarrow>
          if tag_name t = ''a'' then Some t else find_tag element anchor_with_href
      | None \<Rightarrow> find_tag element anchor_with_href)"

text \<open>The href the link is built from: that of \<^verbatim>\<open>link_elem\<close> when it has one that is
  not empty.\<close>

definition link_href :: "node \<Rightarrow> string option" where
  "link_href element =
     (case link_elem element of
        None \<Rightarrow> None
      | Some l \<Rightarrow>
          (case get_attr l ''href'' of
             None \<Rightarrow> None
           | Some h \<Rightarrow> if h \<noteq> [] then Some h else None))"

definition link_of :: "(string \<Rightarrow> bool) \<Rightarrow> node \<Rightarrow> string \<Rightarrow> exn + string" where
  "link_of host_ok element base_url =
     (case link_href element of
        Some h \<Rightarrow> urljoin host_ok base_url h
      | None \<Rightarrow> Inr base_url)"

definition date_elem :: "node \<Rightarrow> node option" where
  "date_elem element =
     find_tag element
       (\<lambda>n. named [''time'', ''span'', ''div''] n \<and>
            class_search [''date'', ''time'', ''published''] n)"

definition post_date_of :: "node \<Rightarrow> exn + datetime option" where
  "post_date_of element =
     (case date_elem element of
        Some d \<Rightarrow>
          parse_date
            (case get_attr d ''datetime'' of
               Some v \<Rightarrow> if v \<noteq> [] then v else py_strip (get_text d)
             | None \<Rightarrow> py_strip (get_text d))
      | None \<Rightarrow> Inr None)"

definition summary_elem :: "node \<Rightarrow> node option" where
  "summary_elem element =
     (case find_tag element
             (\<lambda>n. named [''p'', ''div''] n \<and>
                  class_search [''summary'', ''excerpt'', ''description''] n) of
        Some s \<Rightarrow> Some s
      | None \<Rightarrow> find_tag element (named [''p'']))"

definition summary_of :: "node \<Rightarrow> string" where
  "summary_of element =
     (case summary_elem element of
        Some s \<Rightarrow> take 200 (py_strip (get_text s)) @ ''...''
      | None \<Rightarrow> ''No summary available'')"

text \<open>\<^verbatim>\<open>_extract_post_info\<close>: any exception raised on the way gives \<^verbatim>\<open>None\<close>. \<open>now\<close>
  is what \<^verbatim>\<open>datetime.now()\<close> returns when the record is built.\<close>

definition extract_post_info ::
  "(string \<Rightarrow> bool) \<Rightarrow> datetime \<Rightarrow> node \<Rightarrow> string \<Rightarrow> nat list \<Rightarrow> post option" where
  "extract_post_info host_ok now element base_url company_name =
     (case link_of host_ok element base_url of
        Inl e \<Rightarrow> None
      | Inr link \<Rightarrow>
          (case post_date_of element of
             Inl e \<Rightarrow> None
           | Inr post_date \<Rightarrow>
               Some \<lparr>p_title = title_of element, p_url = link, p_date = post_date,
                      p_summary = summary_of element, p_company = company_name,
                      p_scraped_at = isoformat now\<rparr>))"

section \<open>The listing scanner\<close>

text \<open>
  What the scraper gets from outside: the library's check of a bracketed host, the HTML
  parser, the clock at each extraction on a page, the clock at the start of a run, the
  subtraction of a number of days from a \<^verbatim>\<open>datetime\<close>, and the outcome of
  \<^verbatim>\<open>session.get(url, timeout=10)\<close> followed by \<^verbatim>\<open>raise_for_status()\<close>: the body of the
  response, or the exception raised.
\<close>

record env =
  host_ok :: "string \<Rightarrow> bool"
  make_soup :: "string \<Rightarrow> exn + node"
  extract_time :: "string \<Rightarrow> nat \<Rightarrow> datetime"
  start_time :: datetime
  minus_days :: "datetime \<Rightarrow> int \<Rightarrow> exn + datetime"
  session_get :: "string \<Rightarrow> exn + string"

definition selectors :: "css list" where
  "selectors =
     [Type_sel ''article'',
      Class_sub ''post'',
      Class_sub ''article'',
      Class_sub ''story'',
      Class_sub ''entry'',
      Class_sub ''item'',
      Class_sub ''card'']"

text \<open>The loop over \<^verbatim>\<open>selectors\<close>: the first selector that selects anything gives the
  candidates, at most fifteen of them.\<close>

fun first_selected :: "node \<Rightarrow> css list \<Rightarrow> node list" where
  "first_selected soup [] = []"
| "first_selected soup (sel # sels) =
     (if select soup sel \<noteq> [] then take 15 (select soup sel) else first_selected soup sels)"

text \<open>The fallback \<^verbatim>\<open>find_all(['div'], string=re.compile(r'.+'))\<close>: the \<^verbatim>\<open>div\<close> tags
  whose \<^verbatim>\<open>string\<close> has a character other than a line feed.\<close>

definition div_with_string :: "node \<Rightarrow> bool" where
  "div_with_string n =
     (named [''div''] n \<and>
      (case node_string n of
         None \<Rightarrow> False
       | Some s \<Rightarrow> list_ex (\<lambda>c. c \<noteq> CHR 0x0A) s))"

definition post_elements :: "node \<Rightarrow> node list" where
  "post_elements soup =
     (if first_selected soup selectors \<noteq> [] then first_selected soup selectors
      else take 10 (find_all soup div_with_string))"

text \<open>The loop over the candidates; \<open>i\<close> counts them, for the clock.\<close>

fun scan_loop ::
  "env \<Rightarrow> string \<Rightarrow> nat list \<Rightarrow> datetime \<Rightarrow> node list \<Rightarrow> nat \<Rightarrow> post list \<Rightarrow> post list"
  where
  "scan_loop w base_url company_name cutoff_date [] i posts = posts"
| "scan_loop w base_url company_name cutoff_date (element # elements) i posts =
     (case extract_post_info (host_ok w) (extract_time w base_url i) element base_url
             company_name of
        None \<Rightarrow> scan_loop w base_url company_name cutoff_date elements (Suc i) posts
      | Some p \<Rightarrow>
          if p_title p \<noteq> [] \<and> 10 < length (p_title p) then
            (if is_recent_post (p_date p) cutoff_date
             then scan_loop w base_url company_name cutoff_date elements (Suc i) (posts @ [p])
             else scan_loop w base_url company_name cutoff_date elements (Suc i) posts)
          else scan_loop w base_url company_name cutoff_date elements (Suc i) posts)"

definition company_of :: "string \<Rightarrow> nat list" where
  "company_of netloc = py_title (py_replace ''www.'' [] netloc)"

text \<open>\<^verbatim>\<open>_parse_generic_blog\<close>: an exception from the parser or from \<^verbatim>\<open>urlparse\<close> is
  caught and the posts collected so far, none, are returned.\<close>

definition parse_generic_blog :: "env \<Rightarrow> string \<Rightarrow> string \<Rightarrow> datetime \<Rightarrow> post list" where
  "parse_generic_blog w html_content base_url cutoff_date =
     (case make_soup w html_content of
        Inl e \<Rightarrow> []
      | Inr soup \<Rightarrow>
          (case urlparse (host_ok w) base_url [] of
             Inl e \<Rightarrow> []
           | Inr parsed \<Rightarrow>
               scan_loop w base_url (company_of (pr_netloc parsed)) cutoff_date
                 (post_elements soup) 0 []))"

section \<open>The orchestrator\<close>

datatype parser = Parse_generic_blog

record site_config =
  cfg_url :: string
  cfg_parser :: parser

text \<open>The scraper object: the delay between requests, here a whole number of seconds
  (the default \<^verbatim>\<open>1.0\<close> is 1), and the configured sites, a dictionary kept as the list
  of its items. The session is part of \<open>env\<close>.\<close>

record blog_scraper =
  rate_limit_delay :: int
  companies :: "(string \<times> site_config) list"

text \<open>\<^verbatim>\<open>__init__\<close>.\<close>

definition init :: "int \<Rightarrow> blog_scraper" where
  "init delay =
     \<lparr>rate_limit_delay = delay,
      companies =
         [(''TechCrunch AI'',
           \<lparr>cfg_url = ''https://techcrunch.com/category/artificial-intelligence/'',
            cfg_parser = Parse_generic_blog\<rparr>),
          (''VentureBeat AI'',
           \<lparr>cfg_url = ''https://venturebeat.com/ai/'', cfg_parser = Parse_generic_blog\<rparr>),
          (''The Verge AI'',
           \<lparr>cfg_url = ''https://www.theverge.com/ai-artificial-intelligence'',
            cfg_parser = Parse_generic_blog\<rparr>),
          (''Ars Technica'',
           \<lparr>cfg_url = ''https://arstechnica.com/tag/artificial-intelligence/'',
            cfg_parser = Parse_generic_blog\<rparr>),
          (''MIT Technology Review'',
           \<lparr>cfg_url = ''https://www.technologyreview.com/topic/artificial-intelligence/'',
            cfg_parser = Parse_generic_blog\<rparr>),
          (''AI News'',
           \<lparr>cfg_url = ''https://www.artificialintelligence-news.com/'',
            cfg_parser = Parse_generic_blog\<rparr>)]\<rparr>"

definition run_parser ::
  "env \<Rightarrow> parser \<Rightarrow> string \<Rightarrow> string \<Rightarrow> datetime \<Rightarrow> exn + post list" where
  "run_parser w parser_func content u cutoff_date =
     (case parser_func of
        Parse_generic_blog \<Rightarrow> Inr (parse_generic_blog w content u cutoff_date))"

text \<open>\<^verbatim>\<open>_make_request\<close>: every exception of the request is caught and gives \<^verbatim>\<open>None\<close>.\<close>

definition make_request :: "env \<Rightarrow> string \<Rightarrow> string option" where
  "make_request w u =
     (case session_get w u of
        Inr content \<Rightarrow> Some content
      | Inl Timeout \<Rightarrow> None
      | Inl ConnectionError \<Rightarrow> None
      | Inl (HTTPError status) \<Rightarrow> None
      | Inl e \<Rightarrow> None)"

text \<open>\<^verbatim>\<open>_scrape_company_blog\<close>: no response gives the empty list, and so does an
  exception of the parser.\<close>

definition scrape_company_blog ::
  "env \<Rightarrow> string \<Rightarrow> string \<Rightarrow> parser \<Rightarrow> datetime \<Rightarrow> exn + post list" where
  "scrape_company_blog w company_name u parser_func cutoff_date =
     (case make_request w u of
        None \<Rightarrow> Inr []
      | Some content \<Rightarrow>
          (case run_parser w parser_func content u cutoff_date of
             Inr posts \<Rightarrow> Inr posts
           | Inl e \<Rightarrow> Inr []))"

text \<open>\<^verbatim>\<open>results[key] = value\<close> on a dictionary kept as the list of its items in insertion
  order.\<close>

fun py_setitem :: "('k \<times> 'v) list \<Rightarrow> 'k \<Rightarrow> 'v \<Rightarrow> ('k \<times> 'v) list" where
  "py_setitem [] k v = [(k, v)]"
| "py_setitem (kv # kvs) k v =
     (if fst kv = k then (k, v) # kvs else kv # py_setitem kvs k v)"

text \<open>The body of the loop of \<^verbatim>\<open>scrape_all_companies\<close>: the posts of the site, or
  the empty list when \<^verbatim>\<open>_scrape_company_blog\<close> raises.\<close>

definition site_result :: "env \<Rightarrow> datetime \<Rightarrow> string \<times> site_config \<Rightarrow> post list" where
  "site_result w cutoff_date site =
     (case scrape_company_blog w (fst site) (cfg_url (snd site)) (cfg_parser (snd site))
             cutoff_date of
        Inr posts \<Rightarrow> posts
      | Inl e \<Rightarrow> [])"

text \<open>\<^verbatim>\<open>time.sleep(secs)\<close> for a whole number of seconds: \<^verbatim>\<open>OverflowError\<close> when the
  length in nanoseconds does not fit 64 bits, \<^verbatim>\<open>ValueError\<close> when the length is
  negative; otherwise it returns when the time has passed.\<close>

definition time_sleep :: "int \<Rightarrow> exn + unit" where
  "time_sleep secs =
     (if secs < - 9223372036 \<or> 9223372036 < secs then Inl OverflowError
      else if secs < 0 then Inl ValueError
      else Inr ())"

text \<open>The loop over the configured sites: each is scraped and stored under its name,
  then comes the pause, outside the handler, so that an exception of
  \<^verbatim>\<open>time.sleep\<close> leaves the loop and the function.\<close>

fun scrape_loop ::
  "env \<Rightarrow> int \<Rightarrow> datetime \<Rightarrow> (string \<times> site_config) list \<Rightarrow> (string \<times> post list) list \<Rightarrow>
     exn + (string \<times> post list) list" where
  "scrape_loop w delay cutoff_date [] results = Inr results"
| "scrape_loop w delay cutoff_date (site # sites) results =
     (let stored = py_setitem results (fst site) (site_result w cutoff_date site)
      in case time_sleep delay of
           Inl e \<Rightarrow> Inl e
         | Inr u \<Rightarrow> scrape_loop w delay cutoff_date sites stored)"

text \<open>\<^verbatim>\<open>scrape_all_companies\<close>: the cutoff is computed before the loop, outside any
  handler.\<close>

definition scrape_all_companies ::
  "env \<Rightarrow> blog_scraper \<Rightarrow> int \<Rightarrow> exn + (string \<times> post list) list" where
  "scrape_all_companies w self days_back =
     (case minus_days w (start_time w) days_back of
        Inl e \<Rightarrow> Inl e
      | Inr cutoff_date \<Rightarrow>
          scrape_loop w (rate_limit_delay self) cutoff_date (companies self) [])"

section \<open>A small world to run the scraper in\<close>

text \<open>Listing pages and their trees, a clock, and a network in which some of the
  configured sites fail.\<close>

definition example_html :: string where
  "example_html =
     ''<article><h2>Example Title Here</h2><a href=/x>read</a><time datetime=2024-01-01>Jan 1</time><p>Some summary text.</p></article>''"

definition example_article :: node where
  "example_article =
     Tag ''article'' []
       [Tag ''h2'' [] [Text ''Example Title Here''],
        Tag ''a'' [(''href'', ''/x'')] [Text ''read''],
        Tag ''time'' [(''datetime'', ''2024-01-01'')] [Text ''Jan 1''],
        Tag ''p'' [] [Text ''Some summary text.'']]"

definition plain_html :: string where
  "plain_html = ''<article><p>hello</p></article>''"

definition plain_article :: node where
  "plain_article = Tag ''article'' [] [Tag ''p'' [] [Text ''hello'']]"

definition dated_html :: string where
  "dated_html =
     ''<article><h2>A post with a date</h2><span class=post-date> January 3, 2024 </span></article><article><h2>An older post with a date</h2><time class=Published datetime=2023-12-01T10:00:00Z>Dec 1</time></article><article><p>hello</p></article>''"

definition dated_article :: node where
  "dated_article =
     Tag ''article'' []
       [Tag ''h2'' [] [Text ''A post with a date''],
        Tag ''span'' [(''class'', ''post-date'')] [Text '' January 3, 2024 '']]"

definition old_article :: node where
  "old_article =
     Tag ''article'' []
       [Tag ''h2'' [] [Text ''An older post with a date''],
        Tag ''time'' [(''class'', ''Published''), (''datetime'', ''2023-12-01T10:00:00Z'')]
          [Text ''Dec 1'']]"

definition old_date :: datetime where
  "old_date =
     \<lparr>year = 2023, month = 12, day = 1, hour = 10, minute = 0, second = 0, microsecond = 0\<rparr>"

text \<open>An element whose first anchor has text and no href, followed by an anchor with
  one.\<close>

definition bare_anchor_article :: node where
  "bare_anchor_article =
     Tag ''article'' []
       [Tag ''a'' [(''name'', ''top'')] [Text ''A headline without a link''],
        Tag ''a'' [(''href'', ''/story'')] [Text ''Read more'']]"

text \<open>A page of twenty articles, and a page of twelve \<^verbatim>\<open>div\<close> elements that no
  selector selects.\<close>

definition crowded_html :: string where
  "crowded_html = concat (replicate 20 plain_html)"

definition crowded_page :: node where
  "crowded_page = Tag ''[document]'' [] (replicate 20 plain_article)"

definition div_html :: string where
  "div_html = concat (replicate 12 ''<div>Just some text</div>'')"

definition div_page :: node where
  "div_page = Tag ''[document]'' [] (replicate 12 (Tag ''div'' [] [Text ''Just some text'']))"

definition example_now :: datetime where
  "example_now =
     \<lparr>year = 2024, month = 1, day = 5, hour = 3, minute = 4, second = 0, microsecond = 0\<rparr>"

definition example_cutoff :: datetime where
  "example_cutoff =
     \<lparr>year = 2023, month = 12, day = 29, hour = 3, minute = 4, second = 0, microsecond = 0\<rparr>"

definition example_env :: env where
  "example_env =
     \<lparr>host_ok = (\<lambda>h. False),
      make_soup =
        (\<lambda>html. if html = example_html then Inr (Tag ''[document]'' [] [example_article])
                 else if html = plain_html then Inr (Tag ''[document]'' [] [plain_article])
                 else if html = crowded_html then Inr crowded_page
                 else if html = div_html then Inr div_page
                 else if html = dated_html
                   then Inr (Tag ''[document]'' [] [dated_article, old_article, plain_article])
                 else Inl OtherException),
      extract_time = (\<lambda>u i. example_now),
      start_time = example_now,
      minus_days = (\<lambda>d n. Inr example_cutoff),
      session_get =
        (\<lambda>u. if u = ''https://techcrunch.com/category/artificial-intelligence/''
               then Inr example_html
             else if u = ''https://venturebeat.com/ai/'' then Inl Timeout
             else if u = ''https://www.theverge.com/ai-artificial-intelligence''
               then Inr plain_html
             else if u = ''https://arstechnica.com/tag/artificial-intelligence/''
               then Inl (HTTPError 503)
             else if u = ''https://www.technologyreview.com/topic/artificial-intelligence/''
               then Inr ''not a page''
             else Inl ConnectionError)\<rparr>"

text \<open>A scraper whose only site is the first of the configured ones.\<close>

definition techcrunch_only :: blog_scraper where
  "techcrunch_only = \<lparr>rate_limit_delay = 1, companies = take 1 (companies (init 1))\<rparr>"


section \<open>Verification\<close>

subsection \<open>\<^verbatim>\<open>strptime\<close> raises nothing but \<^verbatim>\<open>ValueError\<close>\<close>


lemma mk_datetime_only_ValueError: "mk_datetime f = Inl e \<Longrightarrow> e = ValueError"
  by (auto simp: mk_datetime_def Let_def split: if_splits)

lemma strptime_only_ValueError: "strptime t fmt = Inl e \<Longrightarrow> e = ValueError"
  by (auto simp: strptime_def split: option.splits list.splits if_splits
      dest: mk_datetime_only_ValueError)

subsection \<open>The date normaliser returns the first format that matches\<close>

lemma try_formats_find:
  "try_formats t fmts =
     Inr (case find (\<lambda>fmt. \<not> isl (strptime t fmt)) fmts of
            None \<Rightarrow> None
          | Some fmt \<Rightarrow> Some (projr (strptime t fmt)))"
proof (induction fmts)
  case Nil
  then show ?case by simp
next
  case (Cons fmt fmts)
  show ?case
  proof (cases "strptime t fmt")
    case (Inl e)
    then have "e = ValueError" by (rule strptime_only_ValueError)
    with Inl Cons show ?thesis by simp
  next
    case (Inr d)
    then show ?thesis by simp
  qed
qed

text \<open>
  Claim C2, as the code has it. The date normaliser never raises: on the empty text it
  returns \<^verbatim>\<open>None\<close>; on any other text it strips the blanks at both ends and returns
  what the first format of the list that \<^verbatim>\<open>strptime\<close> accepts on the whole stripped text
  gives, and \<^verbatim>\<open>None\<close> when no format accepts it.
\<close>

theorem parse_date_first_match:
  "parse_date s =
     Inr (if s = [] then None
          else (case find (\<lambda>fmt. \<not> isl (strptime (py_strip s) fmt)) date_formats of
                  None \<Rightarrow> None
                | Some fmt \<Rightarrow> Some (projr (strptime (py_strip s) fmt))))"
  by (simp add: parse_date_def try_formats_find)

theorem parse_date_first_match_witness:
  "parse_date ''Jan 5, 2024'' =
     Inr (Some \<lparr>year = 2024, month = 1, day = 5, hour = 0, minute = 0, second = 0,
                 microsecond = 0\<rparr>)
   \<and> find (\<lambda>fmt. \<not> isl (strptime (py_strip ''Jan 5, 2024'') fmt)) date_formats
       = Some ''%b %d, %Y''"
proof -
  have "find (\<lambda>fmt. \<not> isl (strptime (py_strip ''Jan 5, 2024'') fmt)) date_formats
          = Some ''%b %d, %Y''"
    by code_simp
  moreover have "projr (strptime (py_strip ''Jan 5, 2024'') ''%b %d, %Y'') =
      \<lparr>year = 2024, month = 1, day = 5, hour = 0, minute = 0, second = 0, microsecond = 0\<rparr>"
    by code_simp
  ultimately show ?thesis
    using parse_date_first_match [of "''Jan 5, 2024''"] by simp
qed

text \<open>
  Claim C2 as stated fails on a text with a blank at one end: no format matches the
  whole of \<^verbatim>\<open>" 2024-01-01"\<close>, and the date normaliser returns a date all the same.
\<close>

theorem parse_date_unstripped_counterexample:
  "map (strptime '' 2024-01-01'') date_formats = replicate 9 (Inl ValueError)
   \<and> parse_date '' 2024-01-01'' =
       Inr (Some \<lparr>year = 2024, month = 1, day = 1, hour = 0, minute = 0, second = 0,
                   microsecond = 0\<rparr>)"
  by code_simp

subsection \<open>Slash-delimited dates\<close>

lemma cls1_mem: "(v, r) \<in> set (cls1 p s) \<Longrightarrow> \<exists>a. s = a # r \<and> p a"
  by (cases s) (auto split: if_splits)

lemma cls2_mem: "(v, r) \<in> set (cls2 p q s) \<Longrightarrow> \<exists>a b. s = a # b # r \<and> p a \<and> q b"
  by (cases "(p, q, s)" rule: cls2.cases) (auto split: if_splits)

lemma cls4_mem:
  "(v, r) \<in> set (cls4 p s) \<Longrightarrow> \<exists>a b c d. s = a # b # c # d # r \<and> p a \<and> p b \<and> p c \<and> p d"
  by (cases "(p, s)" rule: cls4.cases) (auto split: if_splits)

lemma code_simps [simp]:
  "code CHR ''0'' = 48" "code CHR ''1'' = 49" "code CHR ''2'' = 50" "code CHR ''3'' = 51"
  "code CHR ''5'' = 53" "code CHR ''6'' = 54" "code CHR ''9'' = 57" "code CHR ''/'' = 47"
  "code CHR '' '' = 32"
  by (simp_all add: code_def)

lemma code_inj: "code a = code b \<Longrightarrow> a = b"
  by (simp add: code_def)

lemma digit_not_space: "is_digit a \<Longrightarrow> \<not> py_isspace a"
  by (auto simp: is_digit_def py_isspace_def)

lemma slash_not_space: "\<not> py_isspace CHR ''/''"
  by (simp add: py_isspace_def)

lemma slash_not_digit: "\<not> is_digit CHR ''/''"
  by (simp add: is_digit_def)

lemma lower_digit: "is_digit a \<Longrightarrow> py_lower_char a = a"
  by (simp add: is_digit_def py_lower_char_def)

lemma code_lower:
  "code (py_lower_char a) =
     (if (65 \<le> code a \<and> code a \<le> 90) \<or> (192 \<le> code a \<and> code a \<le> 222 \<and> code a \<noteq> 215)
      then code a + 32 else code a)"
  by (simp add: py_lower_char_def) (simp add: code_def)

lemma lower_slash: "py_lower_char a = py_lower_char CHR ''/'' \<Longrightarrow> a = CHR ''/''"
proof -
  assume h: "py_lower_char a = py_lower_char CHR ''/''"
  have "py_lower_char CHR ''/'' = CHR ''/''" by (simp add: py_lower_char_def)
  with h have "code (py_lower_char a) = 47" by simp
  then have "code a = 47" by (simp add: code_lower split: if_splits)
  then show ?thesis by (intro code_inj) simp
qed

lemma Lit_mem:
  "(v, r) \<in> set (item_alts (Lit c) s) \<Longrightarrow> \<exists>a. s = a # r \<and> py_lower_char a = py_lower_char c"
  by (cases s) (simp_all add: item_alts_def split: if_splits)

lemma re_match_mem_Cons:
  "(f', r') \<in> set (re_match (i # is) f s) \<longleftrightarrow>
     (\<exists>v r. (v, r) \<in> set (item_alts i s) \<and> (f', r') \<in> set (re_match is (set_field i v f) r))"
  by (simp add: Bex_def)

lemma re_match_Cons_Nil: "item_alts i s = [] \<Longrightarrow> re_match (i # is) f s = []"
  by simp

lemma Dm_mem:
  "(v, r) \<in> set (item_alts Dm s) \<Longrightarrow>
     (\<exists>a. s = a # r \<and> is_digit a) \<or> (\<exists>a b. s = a # b # r \<and> is_digit a \<and> is_digit b)"
  unfolding item_alts_def re_item.case set_append Un_iff
  apply (elim disjE)
    apply (drule cls2_mem)
    apply (clarsimp simp: in_range_def is_digit_def)
   apply (drule cls2_mem)
   apply (clarsimp simp: in_range_def is_digit_def)
  apply (drule cls1_mem)
  apply (clarsimp simp: in_range_def is_digit_def)
  done

lemma Dd_mem:
  "(v, r) \<in> set (item_alts Dd s) \<Longrightarrow>
     (\<exists>a. s = a # r \<and> is_digit a) \<or>
     (\<exists>a b. s = a # b # r \<and> (is_digit a \<or> a = CHR '' '') \<and> is_digit b)"
  unfolding item_alts_def re_item.case set_append Un_iff
  apply (elim disjE)
      apply (drule cls2_mem)
      apply (clarsimp simp: in_range_def is_digit_def)
     apply (drule cls2_mem)
     apply (clarsimp simp: in_range_def is_digit_def)
    apply (drule cls2_mem)
    apply (clarsimp simp: in_range_def is_digit_def)
   apply (drule cls1_mem)
   apply (clarsimp simp: in_range_def is_digit_def)
  apply (drule cls2_mem)
  apply (clarsimp simp: in_range_def is_digit_def)
  done

lemma m_slash_shape:
  assumes "(f', r') \<in> set (re_match (Dm # Lit CHR ''/'' # is) f s)"
  shows "slash_shape s"
proof -
  from assms obtain v r w q where
    m: "(v, r) \<in> set (item_alts Dm s)" and l: "(w, q) \<in> set (item_alts (Lit CHR ''/'') r)"
    unfolding re_match_mem_Cons by blast
  from Lit_mem [OF l] lower_slash have r: "r = CHR ''/'' # q" by blast
  from Dm_mem [OF m] r show ?thesis unfolding slash_shape_def by blast
qed

lemma spaces_alts_nonspace: "\<not> py_isspace c \<Longrightarrow> spaces_alts (c # r) = []"
  by (simp add: spaces_alts_def)

lemma DY_slash: "slash_shape s \<Longrightarrow> item_alts DY s = []"
proof (rule ccontr)
  assume sh: "slash_shape s" and ne: "item_alts DY s \<noteq> []"
  then obtain v r where "(v, r) \<in> set (cls4 is_digit s)"
    by (cases "item_alts DY s") (auto simp: item_alts_def)
  from cls4_mem [OF this] sh slash_not_digit show False
    unfolding slash_shape_def by auto
qed


lemma nonempty_mem: "xs \<noteq> [] \<Longrightarrow> \<exists>a b. (a, b) \<in> set xs"
  by (cases xs) auto

lemma name_alt_digit:
  "is_digit a \<Longrightarrow> nm \<noteq> [] \<Longrightarrow> \<not> is_digit (hd nm) \<Longrightarrow> name_alt (nm, k) (a # r) = []"
  by (cases nm) (auto simp: name_alt_def py_lower_def lower_digit)

lemma DB_digit: "is_digit a \<Longrightarrow> item_alts DB (a # r) = []"
  by (simp add: item_alts_def f_month_re_def name_alt_digit is_digit_def code_def)

lemma Db_digit: "is_digit a \<Longrightarrow> item_alts Db (a # r) = []"
  by (simp add: item_alts_def a_month_re_def name_alt_digit is_digit_def code_def)

lemma DB_slash: "slash_shape s \<Longrightarrow> item_alts DB s = []"
  unfolding slash_shape_def by (auto simp: DB_digit)

lemma Db_slash: "slash_shape s \<Longrightarrow> item_alts Db s = []"
  unfolding slash_shape_def by (auto simp: Db_digit)

lemma Dd_Spaces_slash:
  assumes "slash_shape s"
  shows "re_match (Dd # Spaces # is) f s = []"
proof (rule ccontr)
  assume "re_match (Dd # Spaces # is) f s \<noteq> []"
  from nonempty_mem [OF this]
  obtain f' r' where "(f', r') \<in> set (re_match (Dd # Spaces # is) f s)"
    by blast
  then obtain v r w q where
    d: "(v, r) \<in> set (item_alts Dd s)" and sp: "(w, q) \<in> set (item_alts Spaces r)"
    unfolding re_match_mem_Cons by blast
  from Dd_mem [OF d] assms have "\<exists>c t. r = c # t \<and> \<not> py_isspace c"
    unfolding slash_shape_def
    using slash_not_digit slash_not_space digit_not_space by fastforce
  then obtain c t where "r = c # t" "\<not> py_isspace c" by blast
  then have "item_alts Spaces r = []"
    by (simp add: item_alts_def spaces_alts_nonspace)
  with sp show False by simp
qed

lemma pattern_formats:
  "map pattern date_formats =
     [Some [DY, Lit CHR ''-'', Dm, Lit CHR ''-'', Dd],
      Some [DY, Lit CHR ''-'', Dm, Lit CHR ''-'', Dd, Lit CHR ''T'', DH, Lit CHR '':'', DM,
            Lit CHR '':'', DS],
      Some [DY, Lit CHR ''-'', Dm, Lit CHR ''-'', Dd, Lit CHR ''T'', DH, Lit CHR '':'', DM,
            Lit CHR '':'', DS, Lit CHR ''Z''],
      Some [DB, Spaces, Dd, Lit CHR '','', Spaces, DY],
      Some [Db, Spaces, Dd, Lit CHR '','', Spaces, DY],
      Some [Dd, Spaces, DB, Spaces, DY],
      Some [Dd, Spaces, Db, Spaces, DY],
      Some [Dm, Lit CHR ''/'', Dd, Lit CHR ''/'', DY],
      Some [Dd, Lit CHR ''/'', Dm, Lit CHR ''/'', DY]]"
  by code_simp


lemma pattern_each:
  "pattern ''%Y-%m-%d'' = Some [DY, Lit CHR ''-'', Dm, Lit CHR ''-'', Dd]"
  "pattern ''%Y-%m-%dT%H:%M:%S'' =
     Some [DY, Lit CHR ''-'', Dm, Lit CHR ''-'', Dd, Lit CHR ''T'', DH, Lit CHR '':'', DM,
           Lit CHR '':'', DS]"
  "pattern ''%Y-%m-%dT%H:%M:%SZ'' =
     Some [DY, Lit CHR ''-'', Dm, Lit CHR ''-'', Dd, Lit CHR ''T'', DH, Lit CHR '':'', DM,
           Lit CHR '':'', DS, Lit CHR ''Z'']"
  "pattern ''%B %d, %Y'' = Some [DB, Spaces, Dd, Lit CHR '','', Spaces, DY]"
  "pattern ''%b %d, %Y'' = Some [Db, Spaces, Dd, Lit CHR '','', Spaces, DY]"
  "pattern ''%d %B %Y'' = Some [Dd, Spaces, DB, Spaces, DY]"
  "pattern ''%d %b %Y'' = Some [Dd, Spaces, Db, Spaces, DY]"
  "pattern ''%m/%d/%Y'' = Some [Dm, Lit CHR ''/'', Dd, Lit CHR ''/'', DY]"
  "pattern ''%d/%m/%Y'' = Some [Dd, Lit CHR ''/'', Dm, Lit CHR ''/'', DY]"
  using pattern_formats by (simp_all add: date_formats_def)

lemma strptime_no_match:
  "pattern fmt = Some items \<Longrightarrow> re_match items init_fields s = [] \<Longrightarrow>
     strptime s fmt = Inl ValueError"
  by (simp add: strptime_def)

lemma slash_not_earlier:
  assumes "slash_shape s"
  shows "strptime s ''%Y-%m-%d'' = Inl ValueError"
    and "strptime s ''%Y-%m-%dT%H:%M:%S'' = Inl ValueError"
    and "strptime s ''%Y-%m-%dT%H:%M:%SZ'' = Inl ValueError"
    and "strptime s ''%B %d, %Y'' = Inl ValueError"
    and "strptime s ''%b %d, %Y'' = Inl ValueError"
    and "strptime s ''%d %B %Y'' = Inl ValueError"
    and "strptime s ''%d %b %Y'' = Inl ValueError"
proof -
  note nil = re_match_Cons_Nil [OF DY_slash [OF assms]] re_match_Cons_Nil [OF DB_slash [OF assms]]
    re_match_Cons_Nil [OF Db_slash [OF assms]] Dd_Spaces_slash [OF assms]
  show "strptime s ''%Y-%m-%d'' = Inl ValueError"
    by (rule strptime_no_match [OF pattern_each(1)]) (rule nil)
  show "strptime s ''%Y-%m-%dT%H:%M:%S'' = Inl ValueError"
    by (rule strptime_no_match [OF pattern_each(2)]) (rule nil)
  show "strptime s ''%Y-%m-%dT%H:%M:%SZ'' = Inl ValueError"
    by (rule strptime_no_match [OF pattern_each(3)]) (rule nil)
  show "strptime s ''%B %d, %Y'' = Inl ValueError"
    by (rule strptime_no_match [OF pattern_each(4)]) (rule nil)
  show "strptime s ''%b %d, %Y'' = Inl ValueError"
    by (rule strptime_no_match [OF pattern_each(5)]) (rule nil)
  show "strptime s ''%d %B %Y'' = Inl ValueError"
    by (rule strptime_no_match [OF pattern_each(6)]) (rule nil)
  show "strptime s ''%d %b %Y'' = Inl ValueError"
    by (rule strptime_no_match [OF pattern_each(7)]) (rule nil)
qed

lemma strptime_found:
  assumes "strptime s fmt = Inr d" and "pattern fmt = Some items"
  shows "\<exists>f. (f, []) \<in> set (re_match items init_fields s)"
proof (cases "re_match items init_fields s")
  case Nil
  with assms show ?thesis by (simp add: strptime_def)
next
  case (Cons found rest)
  with assms have "snd found = []" by (simp add: strptime_def split: if_splits)
  then have "found = (fst found, [])" by (cases found) simp
  with Cons show ?thesis by (metis list.set_intros(1))
qed

lemma name_alt_suffix: "(v, r) \<in> set (name_alt nm s) \<Longrightarrow> \<exists>pre. s = pre @ r"
  by (auto simp: name_alt_def split: if_splits intro: exI [of _ "take (length (fst nm)) s"])

lemma item_alts_suffix: "(v, r) \<in> set (item_alts i s) \<Longrightarrow> \<exists>pre. s = pre @ r"
proof (cases i)
  case DY
  assume "(v, r) \<in> set (item_alts i s)"
  with DY have "(v, r) \<in> set (cls4 is_digit s)" by (simp add: item_alts_def)
  from cls4_mem [OF this] show ?thesis by (metis append_Cons append_Nil)
next
  case Dm
  assume "(v, r) \<in> set (item_alts i s)"
  with Dm Dm_mem show ?thesis by (metis append_Cons append_Nil)
next
  case Dd
  assume "(v, r) \<in> set (item_alts i s)"
  with Dd Dd_mem show ?thesis by (metis append_Cons append_Nil)
next
  case DH
  assume "(v, r) \<in> set (item_alts i s)"
  with DH show ?thesis
    by (auto simp: item_alts_def dest!: cls1_mem cls2_mem)
next
  case DM
  assume "(v, r) \<in> set (item_alts i s)"
  with DM show ?thesis
    by (auto simp: item_alts_def dest!: cls1_mem cls2_mem)
next
  case DS
  assume "(v, r) \<in> set (item_alts i s)"
  with DS show ?thesis
    by (auto simp: item_alts_def dest!: cls1_mem cls2_mem)
next
  case DB
  assume "(v, r) \<in> set (item_alts i s)"
  with DB show ?thesis by (auto simp: item_alts_def dest: name_alt_suffix)
next
  case Db
  assume "(v, r) \<in> set (item_alts i s)"
  with Db show ?thesis by (auto simp: item_alts_def dest: name_alt_suffix)
next
  case (Lit c)
  assume "(v, r) \<in> set (item_alts i s)"
  with Lit Lit_mem show ?thesis by (metis append_Cons append_Nil)
next
  case Spaces
  assume "(v, r) \<in> set (item_alts i s)"
  with Spaces show ?thesis
    by (auto simp: item_alts_def spaces_alts_def) (metis append_take_drop_id)+
qed

lemma re_match_ends_DY:
  "(f', r') \<in> set (re_match (is @ [DY]) f s) \<Longrightarrow> \<exists>pre a. s = pre @ a # r' \<and> is_digit a"
proof (induction "is" arbitrary: f s)
  case Nil
  then obtain v where "(v, r') \<in> set (cls4 is_digit s)"
    by (auto simp: item_alts_def)
  from cls4_mem [OF this] obtain a b c d where
    "s = a # b # c # d # r'" "is_digit d" by blast
  then have "s = [a, b, c] @ d # r' \<and> is_digit d" by simp
  then show ?case by blast
next
  case (Cons i "is")
  from Cons.prems obtain v r where
    i: "(v, r) \<in> set (item_alts i s)" and
    m: "(f', r') \<in> set (re_match (is @ [DY]) (set_field i v f) r)"
    unfolding append_Cons re_match_mem_Cons by blast
  from Cons.IH [OF m] obtain pre a where "r = pre @ a # r'" "is_digit a" by blast
  moreover from item_alts_suffix [OF i] obtain pre0 where "s = pre0 @ r" by blast
  ultimately have "s = (pre0 @ pre) @ a # r' \<and> is_digit a" by simp
  then show ?case by blast
qed

lemma py_strip_id:
  assumes "s = h # t" "\<not> py_isspace h" "s = pre @ [l]" "\<not> py_isspace l"
  shows "py_strip s = s"
proof -
  have "py_lstrip s = s" using assms(1,2) by (simp add: py_lstrip_def)
  moreover have "py_rstrip s = s" using assms(3,4) by (simp add: py_rstrip_def)
  ultimately show ?thesis by (simp add: py_strip_def)
qed

lemma mdY_strip:
  assumes "strptime s ''%m/%d/%Y'' = Inr d"
  shows "slash_shape s" and "py_strip s = s"
proof -
  from strptime_found [OF assms pattern_each(8)] obtain f where
    f: "(f, []) \<in> set (re_match [Dm, Lit CHR ''/'', Dd, Lit CHR ''/'', DY] init_fields s)"
    by blast
  from m_slash_shape [OF f] show sh: "slash_shape s" .
  from f have "(f, []) \<in> set (re_match ([Dm, Lit CHR ''/'', Dd, Lit CHR ''/''] @ [DY]) init_fields s)"
    by simp
  from re_match_ends_DY [OF this] obtain pre l where l: "s = pre @ [l]" "is_digit l" by blast
  from sh obtain h t where h: "s = h # t" "is_digit h" unfolding slash_shape_def by blast
  from py_strip_id [OF h(1) digit_not_space [OF h(2)] l(1) digit_not_space [OF l(2)]]
  show "py_strip s = s" .
qed

text \<open>
  Claim C9. A date text that \<^verbatim>\<open>strptime\<close> accepts under both \<^verbatim>\<open>%m/%d/%Y\<close> and
  \<^verbatim>\<open>%d/%m/%Y\<close> is parsed by the date normaliser as the month-first reading: none of the
  seven formats before \<^verbatim>\<open>%m/%d/%Y\<close> in the list accepts such a text, and
  \<^verbatim>\<open>%m/%d/%Y\<close> comes before \<^verbatim>\<open>%d/%m/%Y\<close>.
\<close>

theorem slash_date_month_first:
  assumes "strptime s ''%m/%d/%Y'' = Inr d1" and "strptime s ''%d/%m/%Y'' = Inr d2"
  shows "parse_date s = Inr (Some d1)"
proof -
  note sh = mdY_strip [OF assms(1)]
  from sh(1) have "s \<noteq> []" unfolding slash_shape_def by auto
  then show ?thesis
    by (simp add: parse_date_def sh(2) date_formats_def slash_not_earlier [OF sh(1)] assms(1))
qed

theorem slash_date_month_first_witness:
  "strptime ''03/04/2024'' ''%m/%d/%Y''
     = Inr \<lparr>year = 2024, month = 3, day = 4, hour = 0, minute = 0, second = 0, microsecond = 0\<rparr>
   \<and> strptime ''03/04/2024'' ''%d/%m/%Y''
     = Inr \<lparr>year = 2024, month = 4, day = 3, hour = 0, minute = 0, second = 0, microsecond = 0\<rparr>
   \<and> parse_date ''03/04/2024''
     = Inr (Some \<lparr>year = 2024, month = 3, day = 4, hour = 0, minute = 0, second = 0, microsecond = 0\<rparr>)"
proof -
  have a: "strptime ''03/04/2024'' ''%m/%d/%Y''
     = Inr \<lparr>year = 2024, month = 3, day = 4, hour = 0, minute = 0, second = 0, microsecond = 0\<rparr>"
    by code_simp
  have b: "strptime ''03/04/2024'' ''%d/%m/%Y''
     = Inr \<lparr>year = 2024, month = 4, day = 3, hour = 0, minute = 0, second = 0, microsecond = 0\<rparr>"
    by code_simp
  from slash_date_month_first [OF a b] a b show ?thesis by simp
qed

subsection \<open>The recency predicate and the scan loop\<close>


lemma lex_le_refl: "lex_le xs xs"
  by (induction xs) auto

lemma lex_le_antisym: "lex_le xs ys \<Longrightarrow> lex_le ys xs \<Longrightarrow> length xs = length ys \<Longrightarrow> xs = ys"
  by (induction xs ys rule: lex_le.induct) auto

lemma datetime_ge_refl: "datetime_ge d d"
  by (simp add: datetime_ge_def lex_le_refl)

lemma datetime_lt_not_ge: "datetime_lt d c \<Longrightarrow> \<not> datetime_ge d c"
  unfolding datetime_lt_def datetime_ge_def
  using lex_le_antisym [of "datetime_key d" "datetime_key c"]
  by (auto simp: datetime_key_def)

lemma scan_loop_mem:
  "p \<in> set (scan_loop w base_url co cutoff els i posts) \<Longrightarrow>
     p \<in> set posts \<or>
     (\<exists>k < length els.
        extract_post_info (host_ok w) (extract_time w base_url (i + k)) (els ! k) base_url co
          = Some p \<and>
        p_title p \<noteq> [] \<and> 10 < length (p_title p) \<and> is_recent_post (p_date p) cutoff)"
proof (induction els arbitrary: i posts)
  case Nil
  then show ?case by simp
next
  case (Cons el els)
  let ?r = "extract_post_info (host_ok w) (extract_time w base_url i) el base_url co"
  have later: ?case
    if "\<exists>k < length els.
        extract_post_info (host_ok w) (extract_time w base_url (Suc i + k)) (els ! k) base_url co
          = Some p \<and>
        p_title p \<noteq> [] \<and> 10 < length (p_title p) \<and> is_recent_post (p_date p) cutoff"
  proof -
    from that obtain k where k: "k < length els"
      "extract_post_info (host_ok w) (extract_time w base_url (Suc i + k)) (els ! k) base_url co
         = Some p"
      "p_title p \<noteq> []" "10 < length (p_title p)" "is_recent_post (p_date p) cutoff"
      by blast
    then have "Suc k < length (el # els) \<and>
        extract_post_info (host_ok w) (extract_time w base_url (i + Suc k)) ((el # els) ! Suc k)
          base_url co = Some p \<and>
        p_title p \<noteq> [] \<and> 10 < length (p_title p) \<and> is_recent_post (p_date p) cutoff"
      by simp
    then show ?thesis by blast
  qed
  show ?case
  proof (cases ?r)
    case None
    with Cons.prems have "p \<in> set (scan_loop w base_url co cutoff els (Suc i) posts)" by simp
    from Cons.IH [OF this] later show ?thesis by blast
  next
    case (Some q)
    show ?thesis
    proof (cases "p_title q \<noteq> [] \<and> 10 < length (p_title q) \<and> is_recent_post (p_date q) cutoff")
      case True
      with Some Cons.prems
      have "p \<in> set (scan_loop w base_url co cutoff els (Suc i) (posts @ [q]))" by simp
      from Cons.IH [OF this] consider "p \<in> set posts" | "p = q"
        | "\<exists>k < length els.
            extract_post_info (host_ok w) (extract_time w base_url (Suc i + k)) (els ! k)
              base_url co = Some p \<and>
            p_title p \<noteq> [] \<and> 10 < length (p_title p) \<and> is_recent_post (p_date p) cutoff"
        by auto
      then show ?thesis
      proof cases
        case 1
        then show ?thesis by simp
      next
        case 2
        with Some True have
          "0 < length (el # els) \<and>
           extract_post_info (host_ok w) (extract_time w base_url (i + 0)) ((el # els) ! 0)
             base_url co = Some p \<and>
           p_title p \<noteq> [] \<and> 10 < length (p_title p) \<and> is_recent_post (p_date p) cutoff"
          by simp
        then show ?thesis by blast
      next
        case 3
        with later show ?thesis .
      qed
    next
      case False
      with Some Cons.prems have "p \<in> set (scan_loop w base_url co cutoff els (Suc i) posts)"
        by (auto split: if_splits)
      from Cons.IH [OF this] later show ?thesis by blast
    qed
  qed
qed

lemma scan_loop_length:
  "length (scan_loop w base_url co cutoff els i posts) \<le> length posts + length els"
proof (induction els arbitrary: i posts)
  case Nil
  then show ?case by simp
next
  case (Cons el els)
  have a: "length (scan_loop w base_url co cutoff els (Suc i) posts) \<le> length posts + Suc (length els)"
    using Cons.IH [of "Suc i" posts] by simp
  have b: "length (scan_loop w base_url co cutoff els (Suc i) (posts @ [q])) \<le> length posts + Suc (length els)" for q
    using Cons.IH [of "Suc i" "posts @ [q]"] by simp
  show ?case
    using a b by (simp split: option.splits)
qed

lemma parse_generic_blog_mem:
  assumes "p \<in> set (parse_generic_blog w html base_url cutoff)"
  shows "\<exists>soup parsed k.
           make_soup w html = Inr soup \<and> urlparse (host_ok w) base_url [] = Inr parsed \<and>
           k < length (post_elements soup) \<and>
           extract_post_info (host_ok w) (extract_time w base_url k) (post_elements soup ! k)
             base_url (company_of (pr_netloc parsed)) = Some p \<and>
           p_title p \<noteq> [] \<and> 10 < length (p_title p) \<and> is_recent_post (p_date p) cutoff"
proof (cases "make_soup w html")
  case (Inl e)
  with assms show ?thesis by (simp add: parse_generic_blog_def)
next
  case soup: (Inr soup)
  show ?thesis
  proof (cases "urlparse (host_ok w) base_url []")
    case (Inl e)
    with soup assms show ?thesis by (simp add: parse_generic_blog_def)
  next
    case (Inr parsed)
    with soup assms have
      "p \<in> set (scan_loop w base_url (company_of (pr_netloc parsed)) cutoff
         (post_elements soup) 0 [])"
      by (simp add: parse_generic_blog_def)
    from scan_loop_mem [OF this] soup Inr show ?thesis by auto
  qed
qed

lemma first_selected_find:
  "first_selected soup sels =
     (case find (\<lambda>sel. select soup sel \<noteq> []) sels of
        None \<Rightarrow> []
      | Some sel \<Rightarrow> take 15 (select soup sel))"
  by (induction sels) auto


text \<open>
  Claim C1. The recency predicate holds of an unknown date whatever the cutoff, and of a
  known date exactly when the date is at or after the cutoff, the cutoff itself
  included and any earlier date excluded; so every post the listing scanner returns
  has an unknown date or a date at or after the cutoff.
\<close>

theorem recent_posts_only:
  "is_recent_post None cutoff \<and>
   (is_recent_post (Some d) cutoff \<longleftrightarrow> datetime_ge d cutoff) \<and>
   is_recent_post (Some cutoff) cutoff \<and>
   (datetime_lt d cutoff \<longrightarrow> \<not> is_recent_post (Some d) cutoff) \<and>
   (\<forall>p \<in> set (parse_generic_blog w html base_url cutoff).
      p_date p = None \<or> (\<exists>d'. p_date p = Some d' \<and> datetime_ge d' cutoff))"
proof -
  have "p_date p = None \<or> (\<exists>d'. p_date p = Some d' \<and> datetime_ge d' cutoff)"
    if "p \<in> set (parse_generic_blog w html base_url cutoff)" for p
  proof -
    from parse_generic_blog_mem [OF that] have "is_recent_post (p_date p) cutoff" by blast
    then show ?thesis by (cases "p_date p") (simp_all add: is_recent_post_def)
  qed
  then show ?thesis
    by (simp add: is_recent_post_def datetime_ge_refl datetime_lt_not_ge)
qed


theorem recent_posts_only_witness:
  "parse_generic_blog example_env dated_html ''https://site.test'' example_cutoff =
     [\<lparr>p_title = ''A post with a date'', p_url = ''https://site.test'',
        p_date = Some \<lparr>year = 2024, month = 1, day = 3, hour = 0, minute = 0, second = 0,
                          microsecond = 0\<rparr>,
        p_summary = ''No summary available'', p_company = code_points ''Site.Test'',
        p_scraped_at = ''2024-01-05T03:04:00''\<rparr>,
      \<lparr>p_title = ''No title found'', p_url = ''https://site.test'', p_date = None,
        p_summary = ''hello...'', p_company = code_points ''Site.Test'',
        p_scraped_at = ''2024-01-05T03:04:00''\<rparr>]
   \<and> datetime_ge \<lparr>year = 2024, month = 1, day = 3, hour = 0, minute = 0, second = 0,
                     microsecond = 0\<rparr> example_cutoff
   \<and> datetime_lt old_date example_cutoff
   \<and> \<not> is_recent_post (Some old_date) example_cutoff"
proof -
  have run: "parse_generic_blog example_env dated_html ''https://site.test'' example_cutoff =
     [\<lparr>p_title = ''A post with a date'', p_url = ''https://site.test'',
        p_date = Some \<lparr>year = 2024, month = 1, day = 3, hour = 0, minute = 0, second = 0,
                          microsecond = 0\<rparr>,
        p_summary = ''No summary available'', p_company = code_points ''Site.Test'',
        p_scraped_at = ''2024-01-05T03:04:00''\<rparr>,
      \<lparr>p_title = ''No title found'', p_url = ''https://site.test'', p_date = None,
        p_summary = ''hello...'', p_company = code_points ''Site.Test'',
        p_scraped_at = ''2024-01-05T03:04:00''\<rparr>]"
    by code_simp
  have lt: "datetime_lt old_date example_cutoff"
    by code_simp
  note c1 = recent_posts_only
    [of example_cutoff old_date example_env dated_html "''https://site.test''"]
  from c1 lt have old: "\<not> is_recent_post (Some old_date) example_cutoff"
    by blast
  from c1 run have new: "datetime_ge \<lparr>year = 2024, month = 1, day = 3, hour = 0, minute = 0,
      second = 0, microsecond = 0\<rparr> example_cutoff"
    by simp
  from run lt old new show ?thesis by simp
qed

subsection \<open>The extractor and the scanner\<close>


lemma parse_date_returns: "\<exists>r. parse_date s = Inr r"
  by (simp add: parse_date_def try_formats_find)

lemma post_date_of_returns: "\<exists>r. post_date_of el = Inr r"
  using parse_date_returns by (simp add: post_date_of_def split: option.splits)

lemma extract_post_info_fields:
  assumes "extract_post_info ok now el base co = Some p"
  shows "p_title p = title_of el" and "link_of ok el base = Inr (p_url p)"
    and "post_date_of el = Inr (p_date p)" and "p_summary p = summary_of el"
    and "p_company p = co" and "p_scraped_at p = isoformat now"
  using assms by (auto simp: extract_post_info_def split: sum.splits)

lemma post_elements_find:
  "post_elements soup =
     (case find (\<lambda>sel. select soup sel \<noteq> []) selectors of
        None \<Rightarrow> take 10 (find_all soup div_with_string)
      | Some sel \<Rightarrow> take 15 (select soup sel))"
proof (cases "find (\<lambda>sel. select soup sel \<noteq> []) selectors")
  case None
  then show ?thesis by (simp add: post_elements_def first_selected_find)
next
  case (Some sel)
  then have "select soup sel \<noteq> []" by (auto simp: find_Some_iff)
  with Some show ?thesis by (simp add: post_elements_def first_selected_find)
qed

lemma parse_generic_blog_length:
  "make_soup w html = Inr soup \<Longrightarrow>
     length (parse_generic_blog w html base_url cutoff) \<le> length (post_elements soup)"
  using scan_loop_length [of w base_url _ cutoff "post_elements soup" 0 "[]"]
  by (simp add: parse_generic_blog_def split: sum.splits)

text \<open>
  Claim C8. The candidates of the listing scanner are the first fifteen elements of the
  first selector that selects anything, and the first ten of the fallback when no selector
  selects anything; the scanner returns at most one post for each candidate, so at most
  fifteen posts in the first case and at most ten in the second.
\<close>

theorem scanner_output_bounded:
  "length (parse_generic_blog w html base_url cutoff) \<le> 15 \<and>
   (make_soup w html = Inr soup \<longrightarrow>
      (\<forall>sel. find (\<lambda>sel. select soup sel \<noteq> []) selectors = Some sel \<longrightarrow>
         post_elements soup = take 15 (select soup sel) \<and>
         length (parse_generic_blog w html base_url cutoff) \<le> 15) \<and>
      (find (\<lambda>sel. select soup sel \<noteq> []) selectors = None \<longrightarrow>
         post_elements soup = take 10 (find_all soup div_with_string) \<and>
         length (parse_generic_blog w html base_url cutoff) \<le> 10))"
proof -
  have le: "length (post_elements s) \<le> 15" for s
    by (auto simp: post_elements_find split: option.splits)
  have all: "length (parse_generic_blog w html base_url cutoff) \<le> 15"
  proof (cases "make_soup w html")
    case (Inl e)
    then show ?thesis by (simp add: parse_generic_blog_def)
  next
    case (Inr s)
    from parse_generic_blog_length [OF this] le [of s] show ?thesis
      by (rule order_trans)
  qed
  have fallback: "length (parse_generic_blog w html base_url cutoff) \<le> 10"
    if "make_soup w html = Inr soup" "find (\<lambda>sel. select soup sel \<noteq> []) selectors = None"
  proof -
    from that(2) have "length (post_elements soup) \<le> 10"
      by (simp add: post_elements_find)
    with parse_generic_blog_length [OF that(1)] show ?thesis
      by (rule order_trans)
  qed
  from all fallback show ?thesis
    by (simp add: post_elements_find)
qed


theorem scanner_output_bounded_witness:
  "make_soup example_env crowded_html = Inr crowded_page
   \<and> find (\<lambda>sel. select crowded_page sel \<noteq> []) selectors = Some (Type_sel ''article'')
   \<and> length (select crowded_page (Type_sel ''article'')) = 20
   \<and> length (parse_generic_blog example_env crowded_html ''https://site.test'' example_cutoff)
       \<le> 15
   \<and> make_soup example_env div_html = Inr div_page
   \<and> find (\<lambda>sel. select div_page sel \<noteq> []) selectors = None
   \<and> length (find_all div_page div_with_string) = 12
   \<and> length (parse_generic_blog example_env div_html ''https://site.test'' example_cutoff)
       \<le> 10"
proof -
  have a: "make_soup example_env crowded_html = Inr crowded_page"
    by code_simp
  have b: "find (\<lambda>sel. select crowded_page sel \<noteq> []) selectors = Some (Type_sel ''article'')"
    by code_simp
  have c: "length (select crowded_page (Type_sel ''article'')) = 20"
    by code_simp
  have d: "make_soup example_env div_html = Inr div_page"
    by code_simp
  have e: "find (\<lambda>sel. select div_page sel \<noteq> []) selectors = None"
    by code_simp
  have f: "length (find_all div_page div_with_string) = 12"
    by code_simp
  from scanner_output_bounded
    [of example_env crowded_html "''https://site.test''" example_cutoff crowded_page] a b
  have g: "length (parse_generic_blog example_env crowded_html ''https://site.test''
      example_cutoff) \<le> 15"
    by blast
  from scanner_output_bounded
    [of example_env div_html "''https://site.test''" example_cutoff div_page] d e
  have h: "length (parse_generic_blog example_env div_html ''https://site.test''
      example_cutoff) \<le> 10"
    by blast
  from a b c d e f g h show ?thesis by blast
qed

text \<open>
  Claim C5, as the code has it. The listing scanner keeps a post only if its title is
  not empty and longer than ten characters. The title \<^verbatim>\<open>No title found\<close> that the
  extractor gives when it finds no title element has fourteen characters and is kept.
\<close>

theorem scanner_keeps_long_titles:
  "\<forall>p \<in> set (parse_generic_blog w html base_url cutoff).
     p_title p \<noteq> [] \<and> 10 < length (p_title p)"
  using parse_generic_blog_mem by blast

theorem scanner_keeps_long_titles_witness:
  "parse_generic_blog example_env example_html ''https://site.test'' example_cutoff =
     [\<lparr>p_title = ''Example Title Here'', p_url = ''https://site.test/x'', p_date = None,
        p_summary = ''Some summary text....'', p_company = code_points ''Site.Test'',
        p_scraped_at = ''2024-01-05T03:04:00''\<rparr>]
   \<and> 10 < length ''Example Title Here''"
proof -
  have run: "parse_generic_blog example_env example_html ''https://site.test'' example_cutoff =
     [\<lparr>p_title = ''Example Title Here'', p_url = ''https://site.test/x'', p_date = None,
        p_summary = ''Some summary text....'', p_company = code_points ''Site.Test'',
        p_scraped_at = ''2024-01-05T03:04:00''\<rparr>]"
    by code_simp
  from scanner_keeps_long_titles
    [of example_env example_html "''https://site.test''" example_cutoff] run
  have "10 < length ''Example Title Here''" by simp
  with run show ?thesis by blast
qed

text \<open>
  Claim C5 as stated fails: on a page whose only article has no heading, no anchor and no
  element of class title or headline, the scanner returns a post whose title is
  \<^verbatim>\<open>No title found\<close>.
\<close>

theorem sentinel_title_counterexample:
  "make_soup example_env plain_html = Inr (Tag ''[document]'' [] [plain_article])
   \<and> title_elem plain_article = None
   \<and> parse_generic_blog example_env plain_html ''https://site.test'' example_cutoff =
       [\<lparr>p_title = ''No title found'', p_url = ''https://site.test'', p_date = None,
          p_summary = ''hello...'', p_company = code_points ''Site.Test'',
          p_scraped_at = ''2024-01-05T03:04:00''\<rparr>]"
  by code_simp

text \<open>
  Claim C6, as the code has it. Every post the listing scanner returns was extracted from
  one of the candidates of the page; it carries as its company the network location of
  the page's URL, without \<^verbatim>\<open>www.\<close> and in title case, and as its timestamp the clock's
  reading at the extraction of that candidate, in ISO format.
\<close>

theorem company_is_netloc_title:
  "\<forall>p \<in> set (parse_generic_blog w html base_url cutoff).
     \<exists>soup parsed k.
       make_soup w html = Inr soup \<and>
       urlparse (host_ok w) base_url [] = Inr parsed \<and>
       k < length (post_elements soup) \<and>
       extract_post_info (host_ok w) (extract_time w base_url k) (post_elements soup ! k)
         base_url (py_title (py_replace ''www.'' [] (pr_netloc parsed))) = Some p \<and>
       p_company p = py_title (py_replace ''www.'' [] (pr_netloc parsed)) \<and>
       p_scraped_at p = isoformat (extract_time w base_url k)"
proof
  fix p
  assume "p \<in> set (parse_generic_blog w html base_url cutoff)"
  from parse_generic_blog_mem [OF this] obtain soup parsed k where
    s: "make_soup w html = Inr soup" and
    u: "urlparse (host_ok w) base_url [] = Inr parsed" and
    k: "k < length (post_elements soup)" and
    x: "extract_post_info (host_ok w) (extract_time w base_url k) (post_elements soup ! k)
          base_url (company_of (pr_netloc parsed)) = Some p"
    by blast
  from extract_post_info_fields(5,6) [OF x] s u k x
  show "\<exists>soup parsed k.
       make_soup w html = Inr soup \<and>
       urlparse (host_ok w) base_url [] = Inr parsed \<and>
       k < length (post_elements soup) \<and>
       extract_post_info (host_ok w) (extract_time w base_url k) (post_elements soup ! k)
         base_url (py_title (py_replace ''www.'' [] (pr_netloc parsed))) = Some p \<and>
       p_company p = py_title (py_replace ''www.'' [] (pr_netloc parsed)) \<and>
       p_scraped_at p = isoformat (extract_time w base_url k)"
    unfolding company_of_def by blast
qed

theorem company_is_netloc_title_witness:
  "parse_generic_blog example_env example_html
     ''https://www.theverge.com/ai-artificial-intelligence'' example_cutoff =
     [\<lparr>p_title = ''Example Title Here'', p_url = ''https://www.theverge.com/x'',
        p_date = None, p_summary = ''Some summary text....'',
        p_company = code_points ''Theverge.Com'',
        p_scraped_at = ''2024-01-05T03:04:00''\<rparr>]
   \<and> (\<exists>soup parsed k.
         make_soup example_env example_html = Inr soup \<and>
         urlparse (host_ok example_env) ''https://www.theverge.com/ai-artificial-intelligence'' []
           = Inr parsed \<and>
         k < length (post_elements soup) \<and>
         code_points ''Theverge.Com'' = py_title (py_replace ''www.'' [] (pr_netloc parsed)) \<and>
         ''2024-01-05T03:04:00'' = isoformat
           (extract_time example_env ''https://www.theverge.com/ai-artificial-intelligence'' k))"
proof -
  have run: "parse_generic_blog example_env example_html
     ''https://www.theverge.com/ai-artificial-intelligence'' example_cutoff =
     [\<lparr>p_title = ''Example Title Here'', p_url = ''https://www.theverge.com/x'',
        p_date = None, p_summary = ''Some summary text....'',
        p_company = code_points ''Theverge.Com'',
        p_scraped_at = ''2024-01-05T03:04:00''\<rparr>]"
    by code_simp
  from company_is_netloc_title
    [of example_env example_html "''https://www.theverge.com/ai-artificial-intelligence''"
      example_cutoff] run
  have "\<exists>soup parsed k.
         make_soup example_env example_html = Inr soup \<and>
         urlparse (host_ok example_env) ''https://www.theverge.com/ai-artificial-intelligence'' []
           = Inr parsed \<and>
         k < length (post_elements soup) \<and>
         code_points ''Theverge.Com'' = py_title (py_replace ''www.'' [] (pr_netloc parsed)) \<and>
         ''2024-01-05T03:04:00'' = isoformat
           (extract_time example_env ''https://www.theverge.com/ai-artificial-intelligence'' k)"
    by simp blast
  with run show ?thesis by blast
qed

text \<open>Title case on a host with a letter above 127: \<^verbatim>\<open>m\<close>, \<^verbatim>\<open>U+00FC\<close>,
  \<^verbatim>\<open>nchen.de\<close> gives \<^verbatim>\<open>M\<close>, \<^verbatim>\<open>U+00FC\<close>, \<^verbatim>\<open>nchen.De\<close>.\<close>

lemma company_of_latin1:
  "company_of (CHR ''m'' # CHR 0xFC # ''nchen.de'') = 77 # 252 # code_points ''nchen.De''"
  by code_simp

text \<open>
  Claim C6 as stated fails: the post recorded under the site name \<^verbatim>\<open>TechCrunch AI\<close> has
  the company \<^verbatim>\<open>Techcrunch.Com\<close>.
\<close>

theorem company_not_site_name_counterexample:
  "scrape_all_companies example_env techcrunch_only 7 =
     Inr [(''TechCrunch AI'',
           [\<lparr>p_title = ''Example Title Here'', p_url = ''https://techcrunch.com/x'',
              p_date = None, p_summary = ''Some summary text....'',
              p_company = code_points ''Techcrunch.Com'',
              p_scraped_at = ''2024-01-05T03:04:00''\<rparr>])]
   \<and> code_points ''Techcrunch.Com'' \<noteq> code_points ''TechCrunch AI''"
  by code_simp

text \<open>
  Claim C4, as the code has it. When a summary element is found, the summary of the
  extracted post is the first 200 characters of the element's stripped text followed by
  the ellipsis marker, whatever the length of the text: 203 characters when the text is
  longer than 200, and the whole text followed by the marker otherwise.
\<close>

theorem summary_always_ellipsis:
  assumes "extract_post_info ok now el base_url co = Some p"
    and "summary_elem el = Some s"
  shows "p_summary p = take 200 (py_strip (get_text s)) @ ''...'' \<and>
         (200 < length (py_strip (get_text s)) \<longrightarrow> length (p_summary p) = 203) \<and>
         (length (py_strip (get_text s)) \<le> 200 \<longrightarrow>
            p_summary p = py_strip (get_text s) @ ''...'')"
  using extract_post_info_fields(4) [OF assms(1)] assms(2)
  by (simp add: summary_of_def)

theorem summary_always_ellipsis_witness:
  "extract_post_info (host_ok example_env) example_now example_article ''https://site.test''
     (code_points ''Site.Test'') =
     Some \<lparr>p_title = ''Example Title Here'', p_url = ''https://site.test/x'', p_date = None,
            p_summary = ''Some summary text....'', p_company = code_points ''Site.Test'',
            p_scraped_at = ''2024-01-05T03:04:00''\<rparr>
   \<and> summary_elem example_article = Some (Tag ''p'' [] [Text ''Some summary text.''])
   \<and> ''Some summary text....'' =
       take 200 (py_strip (get_text (Tag ''p'' [] [Text ''Some summary text.'']))) @ ''...''"
proof -
  have x: "extract_post_info (host_ok example_env) example_now example_article
     ''https://site.test'' (code_points ''Site.Test'') =
     Some \<lparr>p_title = ''Example Title Here'', p_url = ''https://site.test/x'', p_date = None,
            p_summary = ''Some summary text....'', p_company = code_points ''Site.Test'',
            p_scraped_at = ''2024-01-05T03:04:00''\<rparr>"
    by code_simp
  have s: "summary_elem example_article = Some (Tag ''p'' [] [Text ''Some summary text.''])"
    by code_simp
  from summary_always_ellipsis [OF x s] x s show ?thesis by simp
qed

text \<open>
  Claim C4 as stated fails: a summary element whose text has eighteen characters gives a
  summary with the ellipsis marker appended.
\<close>

theorem short_summary_counterexample:
  "summary_elem example_article = Some (Tag ''p'' [] [Text ''Some summary text.''])
   \<and> length (py_strip (get_text (Tag ''p'' [] [Text ''Some summary text.'']))) = 18
   \<and> map_option p_summary
        (extract_post_info (host_ok example_env) example_now example_article
           ''https://site.test'' (code_points ''Site.Test'')) = Some ''Some summary text....''"
  by code_simp

text \<open>
  Claim C10. When the title element chosen is an anchor without an href attribute, that
  anchor is the link element, no other anchor is looked for, and the extractor returns a
  post whose url is the base URL, whatever other anchors the element contains.
\<close>

theorem title_anchor_without_href:
  assumes "title_elem el = Some t" and "tag_name t = ''a''" and "get_attr t ''href'' = None"
  shows "link_elem el = Some t \<and>
         map_option p_url (extract_post_info ok now el base_url co) = Some base_url"
proof -
  from assms have chosen: "link_elem el = Some t"
    by (simp add: link_elem_def)
  with assms have "link_href el = None"
    by (simp add: link_href_def)
  then have "link_of ok el base_url = Inr base_url"
    by (simp add: link_of_def)
  moreover from post_date_of_returns obtain r where "post_date_of el = Inr r" by blast
  ultimately have "map_option p_url (extract_post_info ok now el base_url co) = Some base_url"
    by (simp add: extract_post_info_def)
  with chosen show ?thesis by simp
qed

theorem title_anchor_without_href_witness:
  "title_elem bare_anchor_article =
     Some (Tag ''a'' [(''name'', ''top'')] [Text ''A headline without a link''])
   \<and> find_tag bare_anchor_article anchor_with_href =
     Some (Tag ''a'' [(''href'', ''/story'')] [Text ''Read more''])
   \<and> map_option p_url
        (extract_post_info (host_ok example_env) example_now bare_anchor_article
           ''https://site.test'' (code_points ''Site.Test'')) = Some ''https://site.test''"
proof -
  have t: "title_elem bare_anchor_article =
     Some (Tag ''a'' [(''name'', ''top'')] [Text ''A headline without a link''])"
    by code_simp
  have n: "tag_name (Tag ''a'' [(''name'', ''top'')] [Text ''A headline without a link'']) = ''a''"
    by simp
  have h: "get_attr (Tag ''a'' [(''name'', ''top'')] [Text ''A headline without a link''])
      ''href'' = None"
    by simp
  have o: "find_tag bare_anchor_article anchor_with_href =
     Some (Tag ''a'' [(''href'', ''/story'')] [Text ''Read more''])"
    by code_simp
  from title_anchor_without_href [OF t n h] t o show ?thesis by blast
qed

subsection \<open>The orchestrator\<close>










subsection \<open>The url of an extracted post\<close>


lemma scheme_char_safe: "scheme_char c \<Longrightarrow> \<not> unsafe_byte c \<and> \<not> c0_or_space c \<and> c \<noteq> CHR '':''"
  by (auto simp: scheme_char_def ascii_alpha_def is_digit_def unsafe_byte_def c0_or_space_def code_def)

lemma valid_scheme_sanitize_url:
  assumes "valid_scheme sch"
  shows "sanitize_url (sch @ CHR '':'' # tail) =
           sch @ CHR '':'' # filter (\<lambda>c. \<not> unsafe_byte c) tail"
proof -
  from assms obtain a as where sch: "sch = a # as" and a: "ascii_alpha a"
    and all: "list_all scheme_char sch"
    by (cases sch) (auto simp: valid_scheme_def)
  from a have "scheme_char a" by (simp add: scheme_char_def)
  with scheme_char_safe have "\<not> c0_or_space a" by blast
  then have "dropWhile c0_or_space (sch @ CHR '':'' # tail) = sch @ CHR '':'' # tail"
    by (simp add: sch)
  moreover from all scheme_char_safe have "filter (\<lambda>c. \<not> unsafe_byte c) sch = sch"
    by (simp add: list_all_iff filter_id_conv)
  moreover have "\<not> unsafe_byte CHR '':''"
    by (simp add: unsafe_byte_def code_def)
  ultimately show ?thesis by (simp add: sanitize_url_def)
qed

lemma valid_scheme_split:
  assumes "valid_scheme sch"
  shows "split_scheme (sch @ CHR '':'' # tail) = Some (py_lower sch, tail)"
proof -
  from assms have ne: "sch \<noteq> []" and a: "ascii_alpha (hd sch)" and all: "list_all scheme_char sch"
    by (simp_all add: valid_scheme_def)
  from all scheme_char_safe have nocolon: "\<forall>c \<in> set sch. c \<noteq> CHR '':''"
    by (auto simp: list_all_iff)
  then have tw: "takeWhile (\<lambda>x. x \<noteq> CHR '':'') (sch @ CHR '':'' # tail) = sch"
    by (simp add: takeWhile_append2)
  have idx: "index_of CHR '':'' (sch @ CHR '':'' # tail) = Some (length sch)"
    by (simp add: index_of_def tw)
  from ne have hd: "hd (sch @ CHR '':'' # tail) = hd sch" by simp
  show ?thesis
    using ne a all by (simp add: split_scheme_def idx hd)
qed

lemma valid_scheme_absolute: "valid_scheme sch \<Longrightarrow> is_absolute (sch @ CHR '':'' # tail)"
  by (simp add: is_absolute_def valid_scheme_sanitize_url valid_scheme_split)

lemma urlunparse_prefix:
  "sch \<noteq> [] \<Longrightarrow> \<exists>tail. urlunparse sch n u pa q f = sch @ CHR '':'' # tail"
  by (simp add: urlunparse_def urlunsplit_def Let_def)

lemma urlsplit_scheme:
  "urlsplit ok u d = Inr r \<Longrightarrow>
     sr_scheme r = (case split_scheme (sanitize_url u) of
                      Some found \<Rightarrow> fst found
                    | None \<Rightarrow> sanitize_scheme d)"
  by (auto simp: urlsplit_def split_tail_def Let_def
      split: option.splits prod.splits if_splits)

lemma urlparse_scheme:
  "urlparse ok u d = Inr r \<Longrightarrow>
     pr_scheme r = (case split_scheme (sanitize_url u) of
                      Some found \<Rightarrow> fst found
                    | None \<Rightarrow> sanitize_scheme d)"
  by (auto simp: urlparse_def Let_def dest!: urlsplit_scheme
      split: sum.splits prod.splits if_splits)

lemma valid_scheme_sanitize_scheme:
  assumes "valid_scheme sch"
  shows "sanitize_scheme sch = sch"
proof -
  from assms have ne: "sch \<noteq> []" and all: "list_all scheme_char sch"
    by (simp_all add: valid_scheme_def)
  from all scheme_char_safe have safe: "\<forall>c \<in> set sch. \<not> c0_or_space c \<and> \<not> unsafe_byte c"
    by (auto simp: list_all_iff)
  from ne safe have "dropWhile c0_or_space sch = sch"
    by (cases sch) auto
  moreover from ne safe have "dropWhile c0_or_space (rev sch) = rev sch"
    by (cases "rev sch") (auto simp: in_set_conv_decomp dest: arg_cong [where f = set])
  moreover from safe have "filter (\<lambda>c. \<not> unsafe_byte c) sch = sch"
    by (simp add: filter_id_conv)
  ultimately show ?thesis by (simp add: sanitize_scheme_def)
qed

lemma uses_relative_valid_all: "list_all valid_scheme (filter (\<lambda>s. s \<noteq> []) uses_relative)"
  by code_simp

lemma uses_relative_valid: "sch \<in> set uses_relative \<Longrightarrow> sch \<noteq> [] \<Longrightarrow> valid_scheme sch"
  using uses_relative_valid_all by (simp add: list_all_iff)


lemma split_scheme_base_nonempty:
  "split_scheme (sanitize_url base) = Some (sch, rest) \<Longrightarrow> base \<noteq> [] \<and> sch \<noteq> []"
  by (auto simp: split_scheme_def sanitize_url_def index_of_def py_lower_def
      split: option.splits if_splits)

lemma urljoin_cases:
  assumes "urljoin ok base h = Inr u" and "h \<noteq> []"
    and "split_scheme (sanitize_url base) = Some (sch, rest)"
    and "sch \<in> set uses_relative"
  shows "(split_scheme (sanitize_url h) \<noteq> None \<and> u = h) \<or> (\<exists>tail. u = sch @ CHR '':'' # tail)"
proof -
  from split_scheme_base_nonempty [OF assms(3)] have base: "base \<noteq> []" and sch: "sch \<noteq> []"
    by simp_all
  from uses_relative_valid [OF assms(4) sch] have valid: "valid_scheme sch" .
  from assms(1) base assms(2) obtain b where b: "urlparse ok base [] = Inr b"
    by (cases "urlparse ok base []") (simp_all add: urljoin_def)
  from urlparse_scheme [OF b] assms(3) have bs: "pr_scheme b = sch" by simp
  from assms(1) base assms(2) b bs obtain r where r: "urlparse ok h sch = Inr r"
    by (cases "urlparse ok h sch") (simp_all add: urljoin_def)
  from urlparse_scheme [OF r] valid_scheme_sanitize_scheme [OF valid]
  have rs: "pr_scheme r = (case split_scheme (sanitize_url h) of
                             Some found \<Rightarrow> fst found | None \<Rightarrow> sch)"
    by (simp split: option.splits)
  show ?thesis
  proof (cases "pr_scheme r = sch")
    case False
    with rs have "split_scheme (sanitize_url h) \<noteq> None" by (auto split: option.splits)
    moreover from assms(1) base assms(2) b bs r False have "u = h"
      by (simp add: urljoin_def)
    ultimately show ?thesis by blast
  next
    case True
    from assms(1) base assms(2) b bs r True assms(4) sch
    have "\<exists>tail. u = sch @ CHR '':'' # tail"
      by (auto simp: urljoin_def Let_def urlunparse_prefix split: if_splits)
    then show ?thesis by blast
  qed
qed

lemma urljoin_absolute:
  assumes "urljoin ok base h = Inr u" and "h \<noteq> []"
    and "split_scheme (sanitize_url base) = Some (sch, rest)"
    and "sch \<in> set uses_relative"
  shows "is_absolute u"
proof -
  from split_scheme_base_nonempty [OF assms(3)] have sch: "sch \<noteq> []" by simp
  from uses_relative_valid [OF assms(4) sch] have valid: "valid_scheme sch" .
  from urljoin_cases [OF assms] show ?thesis
  proof
    assume "split_scheme (sanitize_url h) \<noteq> None \<and> u = h"
    then show ?thesis by (simp add: is_absolute_def)
  next
    assume "\<exists>tail. u = sch @ CHR '':'' # tail"
    with valid_scheme_absolute [OF valid] show ?thesis by auto
  qed
qed

lemma link_href_nonempty: "link_href el = Some h \<Longrightarrow> h \<noteq> []"
  by (auto simp: link_href_def split: option.splits if_splits)

text \<open>
  Claim C7. The base URL of an extraction is the URL of the page that the session has
  just fetched, an absolute URL of scheme \<^verbatim>\<open>http\<close> or \<^verbatim>\<open>https\<close>. For every element
  and every such base URL, the url of the extracted post is absolute: it is the base URL
  when no anchor with a non-empty href is chosen, and otherwise \<^verbatim>\<open>urljoin\<close> of the base
  URL and the href, which starts with the scheme of the base URL when the href names no
  scheme.
\<close>

theorem extracted_url_absolute:
  assumes "extract_post_info ok now el base_url co = Some p"
    and "split_scheme (sanitize_url base_url) = Some (sch, rest)"
    and "sch = ''http'' \<or> sch = ''https''"
  shows "is_absolute base_url \<and> is_absolute (p_url p) \<and>
         (link_href el = None \<longrightarrow> p_url p = base_url) \<and>
         (\<forall>h. link_href el = Some h \<longrightarrow>
            urljoin ok base_url h = Inr (p_url p) \<and>
            (split_scheme (sanitize_url h) = None \<longrightarrow>
               (\<exists>tail. p_url p = sch @ CHR '':'' # tail)))"
proof -
  note link = extract_post_info_fields(2) [OF assms(1)]
  from assms(3) have rel: "sch \<in> set uses_relative"
    by (auto simp: uses_relative_def)
  have base_abs: "is_absolute base_url"
    using assms(2) by (simp add: is_absolute_def)
  show ?thesis
  proof (cases "link_href el")
    case None
    with link have "p_url p = base_url" by (simp add: link_of_def)
    with None base_abs show ?thesis by simp
  next
    case (Some h)
    with link have j: "urljoin ok base_url h = Inr (p_url p)" by (simp add: link_of_def)
    from link_href_nonempty [OF Some] have h: "h \<noteq> []" .
    from urljoin_absolute [OF j h assms(2) rel] have "is_absolute (p_url p)" .
    moreover from urljoin_cases [OF j h assms(2) rel]
    have "split_scheme (sanitize_url h) = None \<longrightarrow> (\<exists>tail. p_url p = sch @ CHR '':'' # tail)"
      by blast
    ultimately show ?thesis using Some j base_abs by simp
  qed
qed

theorem extracted_url_absolute_witness:
  "extract_post_info (host_ok example_env) example_now example_article ''https://site.test''
     (code_points ''Site.Test'') =
     Some \<lparr>p_title = ''Example Title Here'', p_url = ''https://site.test/x'', p_date = None,
            p_summary = ''Some summary text....'', p_company = code_points ''Site.Test'',
            p_scraped_at = ''2024-01-05T03:04:00''\<rparr>
   \<and> split_scheme (sanitize_url ''https://site.test'') = Some (''https'', ''//site.test'')
   \<and> is_absolute ''https://site.test''
   \<and> link_href example_article = Some ''/x''
   \<and> split_scheme (sanitize_url ''/x'') = None
   \<and> is_absolute ''https://site.test/x''
   \<and> urljoin (host_ok example_env) ''https://site.test'' ''/x'' = Inr ''https://site.test/x''"
proof -
  have x: "extract_post_info (host_ok example_env) example_now example_article
     ''https://site.test'' (code_points ''Site.Test'') =
     Some \<lparr>p_title = ''Example Title Here'', p_url = ''https://site.test/x'', p_date = None,
            p_summary = ''Some summary text....'', p_company = code_points ''Site.Test'',
            p_scraped_at = ''2024-01-05T03:04:00''\<rparr>"
    by code_simp
  have b: "split_scheme (sanitize_url ''https://site.test'') = Some (''https'', ''//site.test'')"
    by code_simp
  have r: "''https'' = ''http'' \<or> ''https'' = ''https''"
    by simp
  have l: "link_href example_article = Some ''/x''"
    by code_simp
  have n: "split_scheme (sanitize_url ''/x'') = None"
    by code_simp
  from extracted_url_absolute [OF x b r] l
  have "is_absolute ''https://site.test'' \<and> is_absolute ''https://site.test/x'' \<and>
        urljoin (host_ok example_env) ''https://site.test'' ''/x'' = Inr ''https://site.test/x''"
    by simp
  with x b l n show ?thesis by blast
qed

end
